theory Spec2Isabelle
  imports Complex_Main "HOL-Library.Product_Lexorder"
begin

section \<open>Python values used by the pipeline\<close>

text \<open>
  The pipeline (\<^verbatim>\<open>scripts/rag_pipeline.py\<close>) and the evaluation framework
  (\<^verbatim>\<open>scripts/evaluation_framework.py\<close>) are embedded function by function.
  Python's unbounded integers are \<open>int\<close>, lengths and list positions are \<open>nat\<close>,
  strings are lists of characters (code points below 256), and every exception the
  code can raise is a value of \<open>error\<close>.  The floats of the vector arithmetic are
  the values of IEEE 754 without their rounding, which is left to a parameter (the
  machine); the scores of the evaluation framework are reals with an explicit
  not-a-number where numpy produces one.  The \<^verbatim>\<open>print\<close> calls only write to
  the terminal and are left out, and so are the functions that only format text or
  drive the others (\<^verbatim>\<open>generate_response\<close>, \<^verbatim>\<open>evaluate_pipeline\<close>,
  \<^verbatim>\<open>run_complete_pipeline\<close>, \<^verbatim>\<open>generate_evaluation_report\<close>).
\<close>

datatype error =
    KeyError string
  | ValueError string
  | IndexError string

subsection \<open>Strings\<close>

text \<open>The characters that \<^verbatim>\<open>str.isspace\<close> accepts among the first 256 code points.\<close>

definition isspace :: "char \<Rightarrow> bool" where
  "isspace c =
     (c \<in> set [CHR 0x09, CHR 0x0A, CHR 0x0B, CHR 0x0C, CHR 0x0D, CHR 0x1C, CHR 0x1D, CHR 0x1E,
                CHR 0x1F, CHR 0x20, CHR 0x85, CHR 0xA0])"

text \<open>
  \<^verbatim>\<open>s.split()\<close>: the maximal runs of non-whitespace characters, in order.  The first
  argument is the word read so far.
\<close>

fun split_from :: "string \<Rightarrow> string \<Rightarrow> string list" where
  "split_from w [] = (if w = [] then [] else [w])"
| "split_from w (c # cs) =
     (if isspace c then (if w = [] then split_from [] cs else w # split_from [] cs)
      else split_from (w @ [c]) cs)"

definition split_py :: "string \<Rightarrow> string list" where
  "split_py s = split_from [] s"

text \<open>\<^verbatim>\<open>sep.join(ws)\<close>.\<close>

fun join_py :: "string \<Rightarrow> string list \<Rightarrow> string" where
  "join_py sep [] = []"
| "join_py sep [w] = w"
| "join_py sep (w # v # ws) = w @ sep @ join_py sep (v # ws)"

text \<open>\<^verbatim>\<open>s.strip()\<close>: whitespace removed at both ends.\<close>

definition strip_py :: "string \<Rightarrow> string" where
  "strip_py s = rev (dropWhile isspace (rev (dropWhile isspace s)))"

text \<open>\<^verbatim>\<open>str(k)\<close> for a non-negative integer, as used by the f-string of the chunk id.\<close>

fun str_nat :: "nat \<Rightarrow> string" where
  "str_nat n =
     (if n < 10 then [char_of (48 + n)]
      else str_nat (n div 10) @ [char_of (48 + n mod 10)])"

declare str_nat.simps [simp del]

subsection \<open>Ranges and slices\<close>

text \<open>
  \<^verbatim>\<open>range(start, stop, step)\<close>, with the length CPython computes for it; a zero step
  raises \<^verbatim>\<open>ValueError\<close>.
\<close>

definition range_len :: "int \<Rightarrow> int \<Rightarrow> int \<Rightarrow> nat" where
  "range_len start stop step =
     (if 0 < step then (if start < stop then nat ((stop - start - 1) div step + 1) else 0)
      else (if stop < start then nat ((start - stop - 1) div (- step) + 1) else 0))"

definition range_py :: "int \<Rightarrow> int \<Rightarrow> int \<Rightarrow> error + int list" where
  "range_py start stop step =
     (if step = 0 then Inl (ValueError ''range() arg 3 must not be zero'')
      else Inr (map (\<lambda>k. start + int k * step) [0..<range_len start stop step]))"

text \<open>
  \<^verbatim>\<open>xs[lo:hi]\<close> for arbitrary integers: a negative bound counts from the end, and
  both bounds are clamped to the list.
\<close>

definition slice_bound :: "nat \<Rightarrow> int \<Rightarrow> nat" where
  "slice_bound n b = (if b < 0 then nat (max (b + int n) 0) else min (nat b) n)"

definition slice_py :: "'a list \<Rightarrow> int \<Rightarrow> int \<Rightarrow> 'a list" where
  "slice_py xs lo hi =
     (let l = slice_bound (length xs) lo; h = slice_bound (length xs) hi
      in take (h - l) (drop l xs))"

section \<open>The retrieval pipeline\<close>

subsection \<open>Documents, chunks and the pipeline object\<close>

text \<open>
  A document is the dictionary built by \<^verbatim>\<open>load_documents\<close>; the three derived
  keys exist only after \<^verbatim>\<open>preprocess_documents\<close> has run, so they are optional.
  Names that Python shares between two dictionaries, or with a constant of HOL, carry
  a suffix.
\<close>

record document =
  id_doc :: string
  content :: string
  source :: string
  type_doc :: string
  processed_content :: "string option"
  word_count :: "nat option"
  char_count :: "nat option"

record chunk =
  chunk_id :: string
  parent_doc_id :: string
  content_chunk :: string
  source_chunk :: string
  start_idx :: int
  end_idx :: int
  word_count_chunk :: int

text \<open>
  The values of a 64-bit float: not-a-number, the two infinities, and the numbers.
  \<open>lt64\<close> is the comparison \<^verbatim>\<open><\<close> of IEEE 754, false whenever an operand is
  not-a-number.  The two zeros, which compare equal, are one value here.
\<close>

datatype float64 = Nan | Ninf | Num real | Pinf

fun lt64 :: "float64 \<Rightarrow> float64 \<Rightarrow> bool" where
  "lt64 (Num x) (Num y) = (x < y)"
| "lt64 Ninf (Num y) = True"
| "lt64 Ninf Pinf = True"
| "lt64 (Num x) Pinf = True"
| "lt64 a b = False"

text \<open>
  A numpy array with two axes: its second extent and its rows, every row with as
  many entries as the extent says.  \<open>matrix_of\<close> builds one from rows of the right
  length (rows of another length, which no array can hold, are not taken over).
\<close>

typedef matrix = "{(d :: nat, rows :: float64 list list). list_all (\<lambda>r. length r = d) rows}"
  by (rule exI [of _ "(0, [])"]) simp

setup_lifting type_definition_matrix

lift_definition extent :: "matrix \<Rightarrow> nat" is fst .

lift_definition matrix_rows :: "matrix \<Rightarrow> float64 list list" is snd .

lift_definition matrix_of :: "nat \<Rightarrow> float64 list list \<Rightarrow> matrix"
  is "\<lambda>d rows. (d, filter (\<lambda>r. length r = d) rows)"
  by (simp add: list_all_iff)

text \<open>numpy arrays of floats, as far as the pipeline meets them: one axis, or two axes.\<close>

datatype ndarray = Array1 "float64 list" | Array2 matrix

fun shape :: "ndarray \<Rightarrow> nat list" where
  "shape (Array1 xs) = [length xs]"
| "shape (Array2 mx) = [length (matrix_rows mx), extent mx]"

record index_metadata =
  total_chunks :: nat
  embedding_dim :: nat
  model_name :: string
  created_at :: real

text \<open>
  The dictionary stored by \<^verbatim>\<open>build_vector_database\<close>.  That function reads
  \<^verbatim>\<open>embeddings.shape[1]\<close> before it assigns, so the stored array always has two
  axes, and its second extent is \<open>embedding_dim\<close>.
\<close>

record vector_db =
  chunks_db :: "chunk list"
  embeddings_db :: matrix
  index_metadata :: index_metadata

text \<open>
  The pipeline object.  \<^verbatim>\<open>self.vector_db\<close> is the empty dictionary until
  \<^verbatim>\<open>build_vector_database\<close> stores its three keys at once: \<open>None\<close> is the empty
  dictionary.
\<close>

record RAGPipeline =
  documents :: "document list"
  embeddings :: "float64 list list"
  vector_db :: "vector_db option"
  embedding_model :: string

record search_result = chunk +
  similarity_score :: float64
  rank :: nat

subsection \<open>The random source and the clock\<close>

text \<open>
  The code draws from numpy's global generator and reads the system clock.  Both are
  explicit here: \<open>uniform_src\<close> is the sequence of values that successive calls of
  \<^verbatim>\<open>random_sample\<close> return (each in \<open>[0, 1)\<close>), \<open>clock_src\<close> the sequence of readings
  of \<^verbatim>\<open>time.time()\<close>.  A call consumes the head of its sequence.
\<close>

record world =
  uniform_src :: "nat \<Rightarrow> real"
  clock_src :: "nat \<Rightarrow> real"

definition unit_draws :: "world \<Rightarrow> bool" where
  "unit_draws w = (\<forall>k. 0 \<le> uniform_src w k \<and> uniform_src w k < 1)"

definition rand :: "nat \<Rightarrow> world \<Rightarrow> real list \<times> world" where
  "rand n w = (map (uniform_src w) [0..<n], w\<lparr>uniform_src := \<lambda>k. uniform_src w (k + n)\<rparr>)"

text \<open>\<^verbatim>\<open>np.random.uniform(low, high)\<close> is \<^verbatim>\<open>low + (high - low) * random_sample()\<close>.\<close>

definition uniform :: "real \<Rightarrow> real \<Rightarrow> world \<Rightarrow> real \<times> world" where
  "uniform low high w =
     (low + (high - low) * uniform_src w 0, w\<lparr>uniform_src := \<lambda>k. uniform_src w (Suc k)\<rparr>)"

definition time_py :: "world \<Rightarrow> real \<times> world" where
  "time_py w = (clock_src w 0, w\<lparr>clock_src := \<lambda>k. clock_src w (Suc k)\<rparr>)"

subsection \<open>Loading and preprocessing\<close>

definition RAGPipeline_init :: RAGPipeline where
  "RAGPipeline_init =
     \<lparr>documents = [], embeddings = [], vector_db = None,
      embedding_model = ''sentence-transformers/all-MiniLM-L6-v2''\<rparr>"

definition raw_document :: "string \<Rightarrow> string \<Rightarrow> string \<Rightarrow> string \<Rightarrow> document" where
  "raw_document i c s t =
     \<lparr>id_doc = i, content = c, source = s, type_doc = t,
      processed_content = None, word_count = None, char_count = None\<rparr>"

definition sample_docs :: "document list" where
  "sample_docs =
     [raw_document ''doc_1''
        ''RAG (Retrieval Augmented Generation) combines retrieval systems with generative models to provide contextually accurate responses.''
        ''rag-guide.pdf'' ''pdf'',
      raw_document ''doc_2''
        ''Vector databases store high-dimensional embeddings that capture semantic meaning of text for efficient similarity search.''
        ''vector-db-tutorial.md'' ''markdown'',
      raw_document ''doc_3''
        ''Prompt engineering involves crafting effective prompts to elicit desired responses from language models.''
        ''prompt-engineering.txt'' ''text'',
      raw_document ''doc_4''
        ''Llama 3 is a state-of-the-art open-source language model that excels at various NLP tasks including text generation and reasoning.''
        ''llama3-overview.html'' ''html'']"

text \<open>\<^verbatim>\<open>load_documents\<close> ignores its argument and installs the four sample documents.\<close>

definition load_documents :: "RAGPipeline \<Rightarrow> string list \<Rightarrow> RAGPipeline" where
  "load_documents p file_paths = p\<lparr>documents := sample_docs\<rparr>"

definition preprocess_document :: "document \<Rightarrow> document" where
  "preprocess_document doc =
     (let cleaned_content = join_py '' '' (split_py (strip_py (content doc)))
      in doc\<lparr>processed_content := Some cleaned_content,
              word_count := Some (length (split_py cleaned_content)),
              char_count := Some (length cleaned_content)\<rparr>)"

definition preprocess_documents :: "RAGPipeline \<Rightarrow> RAGPipeline" where
  "preprocess_documents p = p\<lparr>documents := map preprocess_document (documents p)\<rparr>"

subsection \<open>Chunking\<close>

text \<open>
  The body of the inner loop of \<^verbatim>\<open>chunk_documents\<close>: the chunk that starts at word
  \<open>i\<close> and receives the number \<open>k\<close>.
\<close>

definition make_chunk :: "document \<Rightarrow> string list \<Rightarrow> int \<Rightarrow> nat \<Rightarrow> int \<Rightarrow> chunk" where
  "make_chunk doc words chunk_size k i =
     (let chunk_words = slice_py words i (i + chunk_size)
      in \<lparr>chunk_id = ''chunk_'' @ str_nat k,
          parent_doc_id = id_doc doc,
          content_chunk = join_py '' '' chunk_words,
          source_chunk = source doc,
          start_idx = i,
          end_idx = min (i + chunk_size) (int (length words)),
          word_count_chunk = int (length chunk_words)\<rparr>)"

text \<open>
  The inner loop over \<^verbatim>\<open>range(0, len(words), chunk_size - overlap)\<close>, numbering the
  chunks from \<open>k\<close> on.
\<close>

definition doc_chunks :: "document \<Rightarrow> string list \<Rightarrow> int \<Rightarrow> nat \<Rightarrow> int list \<Rightarrow> chunk list" where
  "doc_chunks doc words chunk_size k starts =
     map (\<lambda>(j, i). make_chunk doc words chunk_size (k + j) i) (enumerate 0 starts)"

text \<open>
  The outer loop, with the list \<open>chunks\<close> and the counter \<open>chunk_id\<close> as
  accumulators.  A document that was not preprocessed has no \<^verbatim>\<open>processed_content\<close>
  (\<^verbatim>\<open>KeyError\<close>); a zero step makes \<^verbatim>\<open>range\<close> raise.
\<close>

fun chunk_loop ::
  "document list \<Rightarrow> int \<Rightarrow> int \<Rightarrow> chunk list \<Rightarrow> nat \<Rightarrow> error + chunk list" where
  "chunk_loop [] chunk_size overlap chunks k = Inr chunks"
| "chunk_loop (doc # docs) chunk_size overlap chunks k =
     (case processed_content doc of
        None \<Rightarrow> Inl (KeyError ''processed_content'')
      | Some c \<Rightarrow>
          (let words = split_py c in
           case range_py 0 (int (length words)) (chunk_size - overlap) of
             Inl e \<Rightarrow> Inl e
           | Inr starts \<Rightarrow>
               chunk_loop docs chunk_size overlap
                 (chunks @ doc_chunks doc words chunk_size k starts) (k + length starts)))"

definition chunk_documents :: "RAGPipeline \<Rightarrow> int \<Rightarrow> int \<Rightarrow> error + chunk list" where
  "chunk_documents p chunk_size overlap = chunk_loop (documents p) chunk_size overlap [] 0"

subsection \<open>The machine\<close>

text \<open>
  What the floating-point kernels of numpy return depends on their rounding and on
  the order in which the library adds; what \<^verbatim>\<open>list.sort\<close> returns when a key is
  not-a-number depends on the comparisons that CPython's sorting algorithm happens
  to make.  Both are unknowns of the machine that runs the code, like the random
  source and the clock, and are parameters here: the norm, the division and the dot
  product of numpy, and the result of
  \<^verbatim>\<open>similarities.sort(key=lambda x: x[1], reverse=True)\<close> for a list with a
  not-a-number among its scores.
\<close>

record machine =
  norm_op :: "float64 list \<Rightarrow> float64"
  divide_op :: "float64 \<Rightarrow> float64 \<Rightarrow> float64"
  dot_op :: "float64 list \<Rightarrow> float64 list \<Rightarrow> float64"
  sort_nan_op :: "(nat \<times> float64) list \<Rightarrow> (nat \<times> float64) list"

subsection \<open>Embeddings and the vector database\<close>

text \<open>\<^verbatim>\<open>embedding / np.linalg.norm(embedding)\<close>: every entry divided by the norm.\<close>

definition normalized :: "machine \<Rightarrow> float64 list \<Rightarrow> float64 list" where
  "normalized m v = map (\<lambda>x. divide_op m x (norm_op m v)) v"

text \<open>
  \<^verbatim>\<open>np.array\<close> of a list of vectors: the empty list gives an array with the single
  extent 0, equally long vectors give a two-axis array, anything else is refused.
\<close>

fun np_array :: "float64 list list \<Rightarrow> error + ndarray" where
  "np_array [] = Inr (Array1 [])"
| "np_array (r # rs) =
     (if list_all (\<lambda>x. length x = length r) rs
      then Inr (Array2 (matrix_of (length r) (r # rs)))
      else Inl (ValueError ''inhomogeneous shape''))"

text \<open>
  The loop of \<^verbatim>\<open>generate_embeddings\<close>: one draw of 384 numbers of \<open>[0, 1)\<close> for each
  chunk.
\<close>

fun embedding_loop ::
  "machine \<Rightarrow> chunk list \<Rightarrow> float64 list list \<Rightarrow> world \<Rightarrow> float64 list list \<times> world" where
  "embedding_loop m [] embs w = (embs, w)"
| "embedding_loop m (c # cs) embs w =
     (case rand 384 w of
        (embedding, w') \<Rightarrow> embedding_loop m cs (embs @ [normalized m (map Num embedding)]) w')"

definition generate_embeddings ::
  "machine \<Rightarrow> chunk list \<Rightarrow> world \<Rightarrow> (error + ndarray) \<times> world" where
  "generate_embeddings m chunks w =
     (case embedding_loop m chunks [] w of (embs, w') \<Rightarrow> (np_array embs, w'))"

text \<open>
  \<^verbatim>\<open>build_vector_database\<close> replaces \<^verbatim>\<open>self.vector_db\<close>.  The only thing that can
  fail is \<^verbatim>\<open>embeddings.shape[1]\<close>, on an array with one axis; the clock is read after
  that.
\<close>

definition build_vector_database ::
  "RAGPipeline \<Rightarrow> chunk list \<Rightarrow> ndarray \<Rightarrow> world \<Rightarrow> (error + RAGPipeline) \<times> world" where
  "build_vector_database p chunks embs w =
     (case embs of
        Array1 xs \<Rightarrow> (Inl (IndexError ''tuple index out of range''), w)
      | Array2 mx \<Rightarrow>
          (case time_py w of (t, w') \<Rightarrow>
             (Inr (p\<lparr>vector_db := Some
                    \<lparr>chunks_db = chunks,
                     embeddings_db = mx,
                     index_metadata =
                       \<lparr>total_chunks = length chunks,
                        embedding_dim = shape embs ! 1,
                        model_name = embedding_model p,
                        created_at = t\<rparr>\<rparr>\<rparr>), w')))"

subsection \<open>Similarity search\<close>

text \<open>\<^verbatim>\<open>np.dot\<close> of two vectors; vectors of different lengths are refused.\<close>

definition np_dot :: "machine \<Rightarrow> float64 list \<Rightarrow> float64 list \<Rightarrow> error + float64" where
  "np_dot m a b =
     (if length a = length b then Inr (dot_op m a b)
      else Inl (ValueError ''shapes not aligned''))"

text \<open>
  The first loop of \<^verbatim>\<open>similarity_search\<close>: position \<open>i\<close> and the list
  \<open>similarities\<close> are the accumulators.
\<close>

fun similarity_loop ::
  "machine \<Rightarrow> float64 list \<Rightarrow> float64 list list \<Rightarrow> nat \<Rightarrow> (nat \<times> float64) list
     \<Rightarrow> error + (nat \<times> float64) list" where
  "similarity_loop m q [] i similarities = Inr similarities"
| "similarity_loop m q (chunk_embedding # rest) i similarities =
     (case np_dot m q chunk_embedding of
        Inl e \<Rightarrow> Inl e
      | Inr similarity \<Rightarrow> similarity_loop m q rest (Suc i) (similarities @ [(i, similarity)]))"

text \<open>
  The floats other than not-a-number are totally ordered by \<open>lt64\<close>; \<open>key64\<close>
  places them in a linear order (pairs compare by the first component, then by the
  second), so that the library's stable sort applies.
\<close>

fun key64 :: "float64 \<Rightarrow> nat \<times> real" where
  "key64 Ninf = (0, 0)"
| "key64 (Num x) = (1, x)"
| "key64 Pinf = (2, 0)"
| "key64 Nan = (3, 0)"

text \<open>
  \<^verbatim>\<open>similarities.sort(key=lambda x: x[1], reverse=True)\<close>.  CPython reverses the
  list, sorts it stably in ascending order of the key and reverses the result.  When
  no score is not-a-number this determines the result; otherwise the result is the
  machine's.
\<close>

definition sort_reverse :: "machine \<Rightarrow> (nat \<times> float64) list \<Rightarrow> (nat \<times> float64) list" where
  "sort_reverse m xs =
     (if list_ex (\<lambda>x. snd x = Nan) xs then sort_nan_op m xs
      else rev (sort_key (\<lambda>x. key64 (snd x)) (rev xs)))"

text \<open>Lines 149 to 157: the positions and scores of the best \<open>top_k\<close> rows.\<close>

definition top_chunks ::
  "machine \<Rightarrow> float64 list \<Rightarrow> float64 list list \<Rightarrow> int \<Rightarrow> error + (nat \<times> float64) list" where
  "top_chunks m q rows top_k =
     (case similarity_loop m q rows 0 [] of
        Inl e \<Rightarrow> Inl e
      | Inr similarities \<Rightarrow> Inr (slice_py (sort_reverse m similarities) 0 top_k))"

text \<open>The second loop: the chunk at each position, extended by its score and its rank.\<close>

definition make_result :: "chunk \<Rightarrow> float64 \<Rightarrow> nat \<Rightarrow> search_result" where
  "make_result c s r = chunk.extend c (search_result.fields s r)"

fun result_loop ::
  "chunk list \<Rightarrow> (nat \<times> float64) list \<Rightarrow> search_result list \<Rightarrow> error + search_result list" where
  "result_loop chunks [] results = Inr results"
| "result_loop chunks ((chunk_idx, sim) # rest) results =
     (if chunk_idx < length chunks
      then result_loop chunks rest
             (results @ [make_result (chunks ! chunk_idx) sim (length results + 1)])
      else Inl (IndexError ''list index out of range''))"

text \<open>
  \<^verbatim>\<open>similarity_search\<close>.  The query vector is drawn from the random source before
  the database is read; the query string is used for nothing but the progress message.
\<close>

definition similarity_search ::
  "machine \<Rightarrow> RAGPipeline \<Rightarrow> string \<Rightarrow> int \<Rightarrow> world
     \<Rightarrow> (error + search_result list) \<times> world" where
  "similarity_search m p query top_k w =
     (case rand 384 w of (u, w') \<Rightarrow>
        let query_embedding = normalized m (map Num u) in
        (case vector_db p of
           None \<Rightarrow> (Inl (KeyError ''embeddings''), w')
         | Some db \<Rightarrow>
             (case top_chunks m query_embedding (matrix_rows (embeddings_db db)) top_k of
                Inl e \<Rightarrow> (Inl e, w')
              | Inr tops \<Rightarrow> (result_loop (chunks_db db) tops [], w'))))"

section \<open>The evaluation framework\<close>

subsection \<open>Floats and the numpy reductions\<close>

text \<open>
  A float is a real number or numpy's not-a-number, which \<^verbatim>\<open>np.mean\<close> and its
  relatives return (with a warning) for an empty input and pass on when an input
  holds one.  \<^verbatim>\<open>np.min\<close> and \<^verbatim>\<open>np.max\<close> refuse an empty input instead.
\<close>

datatype float_py = NaN | Fl real

fun float_values :: "float_py list \<Rightarrow> real list option" where
  "float_values [] = Some []"
| "float_values (NaN # xs) = None"
| "float_values (Fl x # xs) = map_option ((#) x) (float_values xs)"

definition average :: "real list \<Rightarrow> real" where
  "average vs = sum_list vs / real (length vs)"

definition variance :: "real list \<Rightarrow> real" where
  "variance vs = average (map (\<lambda>x. (x - average vs) * (x - average vs)) vs)"

definition np_mean :: "float_py list \<Rightarrow> float_py" where
  "np_mean xs =
     (case float_values xs of
        None \<Rightarrow> NaN
      | Some vs \<Rightarrow> if vs = [] then NaN else Fl (average vs))"

definition np_var :: "float_py list \<Rightarrow> float_py" where
  "np_var xs =
     (case float_values xs of
        None \<Rightarrow> NaN
      | Some vs \<Rightarrow> if vs = [] then NaN else Fl (variance vs))"

definition np_std :: "float_py list \<Rightarrow> float_py" where
  "np_std xs =
     (case float_values xs of
        None \<Rightarrow> NaN
      | Some vs \<Rightarrow> if vs = [] then NaN else Fl (sqrt (variance vs)))"

definition np_min :: "float_py list \<Rightarrow> error + float_py" where
  "np_min xs =
     (case float_values xs of
        None \<Rightarrow> Inr NaN
      | Some [] \<Rightarrow>
          Inl (ValueError ''zero-size array to reduction operation minimum which has no identity'')
      | Some (v # vs) \<Rightarrow> Inr (Fl (fold min vs v)))"

definition np_max :: "float_py list \<Rightarrow> error + float_py" where
  "np_max xs =
     (case float_values xs of
        None \<Rightarrow> Inr NaN
      | Some [] \<Rightarrow>
          Inl (ValueError ''zero-size array to reduction operation maximum which has no identity'')
      | Some (v # vs) \<Rightarrow> Inr (Fl (fold max vs v)))"

definition np_median :: "float_py list \<Rightarrow> float_py" where
  "np_median xs =
     (case float_values xs of
        None \<Rightarrow> NaN
      | Some vs \<Rightarrow>
          if vs = [] then NaN
          else let s = sort vs; n = length s
               in if odd n then Fl (s ! (n div 2))
                  else Fl ((s ! (n div 2 - 1) + s ! (n div 2)) / 2))"

text \<open>The builtins \<^verbatim>\<open>min\<close> and \<^verbatim>\<open>max\<close> on a list of floats that holds no not-a-number.\<close>

fun min_py :: "real list \<Rightarrow> error + real" where
  "min_py [] = Inl (ValueError ''min() arg is an empty sequence'')"
| "min_py (v # vs) = Inr (fold min vs v)"

fun max_py :: "real list \<Rightarrow> error + real" where
  "max_py [] = Inl (ValueError ''max() arg is an empty sequence'')"
| "max_py (v # vs) = Inr (fold max vs v)"

subsection \<open>String helpers of the detail payloads\<close>

text \<open>\<^verbatim>\<open>s.lower()\<close> on code points below 256.\<close>

definition lower_char :: "char \<Rightarrow> char" where
  "lower_char c =
     (let n = (of_char c :: nat)
      in if (65 \<le> n \<and> n \<le> 90) \<or> (192 \<le> n \<and> n \<le> 214) \<or> (216 \<le> n \<and> n \<le> 222)
         then char_of (n + 32) else c)"

definition lower_py :: "string \<Rightarrow> string" where
  "lower_py s = map lower_char s"

fun startswith :: "string \<Rightarrow> string \<Rightarrow> bool" where
  "startswith s [] = True"
| "startswith [] (c # cs) = False"
| "startswith (x # xs) (c # cs) = (x = c \<and> startswith xs cs)"

text \<open>\<^verbatim>\<open>sub in s\<close>.\<close>

fun contains :: "string \<Rightarrow> string \<Rightarrow> bool" where
  "contains [] sub = (sub = [])"
| "contains (x # xs) sub = (startswith (x # xs) sub \<or> contains xs sub)"

subsection \<open>Results and evaluators\<close>

datatype detail = Number float_py | Count nat | Numbers "real list"

record EvaluationResult =
  metric_name :: string
  score :: float_py
  details :: "(string \<times> detail) list"
  timestamp :: real

text \<open>
  The loop that \<^verbatim>\<open>RetrievalAccuracyEvaluator\<close> and \<^verbatim>\<open>ContextRelevanceEvaluator\<close>
  both run: one draw from \<open>[0.6, 0.95)\<close> for each context.
\<close>

fun relevance_loop :: "string list \<Rightarrow> real list \<Rightarrow> world \<Rightarrow> real list \<times> world" where
  "relevance_loop [] relevance_scores w = (relevance_scores, w)"
| "relevance_loop (ctx # rest) relevance_scores w =
     (case uniform 0.6 0.95 w of
        (relevance, w') \<Rightarrow> relevance_loop rest (relevance_scores @ [relevance]) w')"

definition RetrievalAccuracyEvaluator_evaluate ::
  "string \<Rightarrow> string \<Rightarrow> string list \<Rightarrow> string option \<Rightarrow> world
     \<Rightarrow> (error + EvaluationResult) \<times> world" where
  "RetrievalAccuracyEvaluator_evaluate query response context ground_truth w =
     (case relevance_loop context [] w of (relevance_scores, w1) \<Rightarrow>
      let avg_relevance = np_mean (map Fl relevance_scores) in
      case time_py w1 of (t, w2) \<Rightarrow>
        (Inr \<lparr>metric_name = ''retrieval_accuracy'',
              score = avg_relevance,
              details =
                [(''individual_scores'', Numbers relevance_scores),
                 (''num_retrieved'', Count (length context)),
                 (''avg_relevance'', Number avg_relevance),
                 (''precision_at_k'', Number avg_relevance)],
              timestamp = t\<rparr>, w2))"

definition GenerationQualityEvaluator_evaluate ::
  "string \<Rightarrow> string \<Rightarrow> string list \<Rightarrow> string option \<Rightarrow> world
     \<Rightarrow> (error + EvaluationResult) \<times> world" where
  "GenerationQualityEvaluator_evaluate query response context ground_truth w =
     (case uniform 0.8 0.95 w of (coherence, w1) \<Rightarrow>
      case uniform 0.75 0.92 w1 of (query_relevance, w2) \<Rightarrow>
      case uniform 0.85 0.98 w2 of (fluency, w3) \<Rightarrow>
      case uniform 0.7 0.9 w3 of (informativeness, w4) \<Rightarrow>
      let overall_quality =
            np_mean [Fl coherence, Fl query_relevance, Fl fluency, Fl informativeness] in
      case time_py w4 of (t, w5) \<Rightarrow>
        (Inr \<lparr>metric_name = ''generation_quality'',
              score = overall_quality,
              details =
                [(''coherence'', Number (Fl coherence)),
                 (''query_relevance'', Number (Fl query_relevance)),
                 (''fluency'', Number (Fl fluency)),
                 (''informativeness'', Number (Fl informativeness)),
                 (''response_length'', Count (length (split_py response))),
                 (''context_utilization'',
                    Count (length (filter
                      (\<lambda>ctx. list_ex (\<lambda>word. contains (lower_py response) word)
                               (take 5 (split_py (lower_py ctx))))
                      context)))],
              timestamp = t\<rparr>, w5))"

definition FaithfulnessEvaluator_evaluate ::
  "string \<Rightarrow> string \<Rightarrow> string list \<Rightarrow> string option \<Rightarrow> world
     \<Rightarrow> (error + EvaluationResult) \<times> world" where
  "FaithfulnessEvaluator_evaluate query response context ground_truth w =
     (case uniform 0.05 0.15 w of (hallucination_score, w1) \<Rightarrow>
      let faithfulness_score = 1 - hallucination_score in
      case uniform 0.6 0.9 w1 of (context_coverage, w2) \<Rightarrow>
      case uniform 0.85 0.98 w2 of (factual_consistency, w3) \<Rightarrow>
      let overall_faithfulness =
            np_mean [Fl faithfulness_score, Fl context_coverage, Fl factual_consistency] in
      case uniform 0.7 0.9 w3 of (response_context_overlap, w4) \<Rightarrow>
      case time_py w4 of (t, w5) \<Rightarrow>
        (Inr \<lparr>metric_name = ''faithfulness'',
              score = overall_faithfulness,
              details =
                [(''hallucination_score'', Number (Fl hallucination_score)),
                 (''context_coverage'', Number (Fl context_coverage)),
                 (''factual_consistency'', Number (Fl factual_consistency)),
                 (''context_length'', Count (sum_list (map (\<lambda>ctx. length (split_py ctx)) context))),
                 (''response_context_overlap'', Number (Fl response_context_overlap))],
              timestamp = t\<rparr>, w5))"

text \<open>
  \<^verbatim>\<open>ContextRelevanceEvaluator\<close> takes the builtin minimum and maximum of the drawn
  scores, which raise on an empty list.
\<close>

definition ContextRelevanceEvaluator_evaluate ::
  "string \<Rightarrow> string \<Rightarrow> string list \<Rightarrow> string option \<Rightarrow> world
     \<Rightarrow> (error + EvaluationResult) \<times> world" where
  "ContextRelevanceEvaluator_evaluate query response context ground_truth w =
     (case relevance_loop context [] w of (relevance_scores, w1) \<Rightarrow>
      let avg_relevance = np_mean (map Fl relevance_scores) in
      case min_py relevance_scores of
        Inl e \<Rightarrow> (Inl e, w1)
      | Inr min_relevance \<Rightarrow>
      case max_py relevance_scores of
        Inl e \<Rightarrow> (Inl e, w1)
      | Inr max_relevance \<Rightarrow>
      case time_py w1 of (t, w2) \<Rightarrow>
        (Inr \<lparr>metric_name = ''context_relevance'',
              score = avg_relevance,
              details =
                [(''individual_relevance'', Numbers relevance_scores),
                 (''avg_relevance'', Number avg_relevance),
                 (''min_relevance'', Number (Fl min_relevance)),
                 (''max_relevance'', Number (Fl max_relevance)),
                 (''relevance_variance'', Number (np_var (map Fl relevance_scores))),
                 (''num_contexts'', Count (length context))],
              timestamp = t\<rparr>, w2))"

definition AnswerRelevanceEvaluator_evaluate ::
  "string \<Rightarrow> string \<Rightarrow> string list \<Rightarrow> string option \<Rightarrow> world
     \<Rightarrow> (error + EvaluationResult) \<times> world" where
  "AnswerRelevanceEvaluator_evaluate query response context ground_truth w =
     (case uniform 0.8 0.95 w of (direct_relevance, w1) \<Rightarrow>
      case uniform 0.75 0.92 w1 of (completeness, w2) \<Rightarrow>
      case uniform 0.7 0.9 w2 of (specificity, w3) \<Rightarrow>
      let overall_relevance = np_mean [Fl direct_relevance, Fl completeness, Fl specificity] in
      case uniform 0.3 0.7 w3 of (keyword_overlap, w4) \<Rightarrow>
      case time_py w4 of (t, w5) \<Rightarrow>
        (Inr \<lparr>metric_name = ''answer_relevance'',
              score = overall_relevance,
              details =
                [(''direct_relevance'', Number (Fl direct_relevance)),
                 (''completeness'', Number (Fl completeness)),
                 (''specificity'', Number (Fl specificity)),
                 (''query_length'', Count (length (split_py query))),
                 (''response_length'', Count (length (split_py response))),
                 (''keyword_overlap'', Number (Fl keyword_overlap))],
              timestamp = t\<rparr>, w5))"

text \<open>The five subclasses of \<^verbatim>\<open>BaseEvaluator\<close> and the dispatch of \<^verbatim>\<open>evaluate\<close>.\<close>

datatype evaluator =
    RetrievalAccuracyEvaluator
  | GenerationQualityEvaluator
  | FaithfulnessEvaluator
  | ContextRelevanceEvaluator
  | AnswerRelevanceEvaluator

fun evaluate ::
  "evaluator \<Rightarrow> string \<Rightarrow> string \<Rightarrow> string list \<Rightarrow> string option \<Rightarrow> world
     \<Rightarrow> (error + EvaluationResult) \<times> world" where
  "evaluate RetrievalAccuracyEvaluator = RetrievalAccuracyEvaluator_evaluate"
| "evaluate GenerationQualityEvaluator = GenerationQualityEvaluator_evaluate"
| "evaluate FaithfulnessEvaluator = FaithfulnessEvaluator_evaluate"
| "evaluate ContextRelevanceEvaluator = ContextRelevanceEvaluator_evaluate"
| "evaluate AnswerRelevanceEvaluator = AnswerRelevanceEvaluator_evaluate"

subsection \<open>The framework object and the aggregation\<close>

record test_case =
  query :: string
  response :: string
  context_case :: "string list"
  ground_truth :: "string option"

record test_result =
  test_case_id :: nat
  query_result :: string
  results :: "(string \<times> EvaluationResult) list"

record metric_aggregate =
  mean_stat :: float_py
  std_stat :: float_py
  min_stat :: float_py
  max_stat :: float_py
  median_stat :: float_py

record evaluation_summary =
  overall_score :: float_py
  metric_aggregates :: "(string \<times> metric_aggregate) list"
  individual_results :: "test_result list"
  test_set_size :: nat
  evaluation_timestamp :: real

text \<open>
  Dictionaries that are read in insertion order are association lists.
  \<open>dict_set\<close> is \<^verbatim>\<open>d[k] = v\<close>; \<open>dict_append\<close> is \<^verbatim>\<open>d[k].append(x)\<close>, which
  raises for a missing key.
\<close>

definition dict_set :: "string \<Rightarrow> 'v \<Rightarrow> (string \<times> 'v) list \<Rightarrow> (string \<times> 'v) list" where
  "dict_set k v d =
     (if k \<in> set (map fst d) then map (\<lambda>(k', v'). if k' = k then (k', v) else (k', v')) d
      else d @ [(k, v)])"

definition dict_append ::
  "string \<Rightarrow> 'v \<Rightarrow> (string \<times> 'v list) list \<Rightarrow> error + (string \<times> 'v list) list" where
  "dict_append k x d =
     (if k \<in> set (map fst d)
      then Inr (map (\<lambda>(k', xs). if k' = k then (k', xs @ [x]) else (k', xs)) d)
      else Inl (KeyError k))"

record RAGEvaluationFramework =
  evaluators :: "(string \<times> evaluator) list"
  evaluation_history :: "evaluation_summary list"

definition RAGEvaluationFramework_init :: RAGEvaluationFramework where
  "RAGEvaluationFramework_init =
     \<lparr>evaluators =
        [(''retrieval_accuracy'', RetrievalAccuracyEvaluator),
         (''generation_quality'', GenerationQualityEvaluator),
         (''faithfulness'', FaithfulnessEvaluator),
         (''context_relevance'', ContextRelevanceEvaluator),
         (''answer_relevance'', AnswerRelevanceEvaluator)],
      evaluation_history = []\<rparr>"

text \<open>The loop of \<^verbatim>\<open>evaluate_single_query\<close> over the registered evaluators.\<close>

fun single_query_loop ::
  "(string \<times> evaluator) list \<Rightarrow> string \<Rightarrow> string \<Rightarrow> string list \<Rightarrow> string option
     \<Rightarrow> (string \<times> EvaluationResult) list \<Rightarrow> world
     \<Rightarrow> (error + (string \<times> EvaluationResult) list) \<times> world" where
  "single_query_loop [] q r c g rs w = (Inr rs, w)"
| "single_query_loop ((name, ev) # rest) q r c g rs w =
     (case evaluate ev q r c g w of
        (Inl e, w') \<Rightarrow> (Inl e, w')
      | (Inr result, w') \<Rightarrow> single_query_loop rest q r c g (dict_set name result rs) w')"

definition evaluate_single_query ::
  "RAGEvaluationFramework \<Rightarrow> string \<Rightarrow> string \<Rightarrow> string list \<Rightarrow> string option \<Rightarrow> world
     \<Rightarrow> (error + (string \<times> EvaluationResult) list) \<times> world" where
  "evaluate_single_query fw q r c g w = single_query_loop (evaluators fw) q r c g [] w"

text \<open>The inner loop of \<^verbatim>\<open>evaluate_test_set\<close> that files each score under its metric.\<close>

fun collect_scores ::
  "(string \<times> EvaluationResult) list \<Rightarrow> (string \<times> float_py list) list
     \<Rightarrow> error + (string \<times> float_py list) list" where
  "collect_scores [] metric_scores = Inr metric_scores"
| "collect_scores ((name, result) # rest) metric_scores =
     (case dict_append name (score result) metric_scores of
        Inl e \<Rightarrow> Inl e
      | Inr metric_scores' \<Rightarrow> collect_scores rest metric_scores')"

text \<open>The loop over the test cases; \<open>i\<close> is the index that \<^verbatim>\<open>enumerate\<close> supplies.\<close>

fun test_case_loop ::
  "RAGEvaluationFramework \<Rightarrow> test_case list \<Rightarrow> nat \<Rightarrow> test_result list
     \<Rightarrow> (string \<times> float_py list) list \<Rightarrow> world
     \<Rightarrow> (error + test_result list \<times> (string \<times> float_py list) list) \<times> world" where
  "test_case_loop fw [] i all_results metric_scores w = (Inr (all_results, metric_scores), w)"
| "test_case_loop fw (tc # rest) i all_results metric_scores w =
     (case evaluate_single_query fw (query tc) (response tc) (context_case tc) (ground_truth tc) w of
        (Inl e, w') \<Rightarrow> (Inl e, w')
      | (Inr rs, w') \<Rightarrow>
          (case collect_scores rs metric_scores of
             Inl e \<Rightarrow> (Inl e, w')
           | Inr metric_scores' \<Rightarrow>
               test_case_loop fw rest (Suc i)
                 (all_results @ [\<lparr>test_case_id = i, query_result = query tc, results = rs\<rparr>])
                 metric_scores' w'))"

text \<open>
  The aggregation loop.  The five statistics are computed in the order of the
  dictionary display; only the minimum and the maximum can raise.
\<close>

fun aggregate_loop ::
  "(string \<times> float_py list) list \<Rightarrow> (string \<times> metric_aggregate) list
     \<Rightarrow> error + (string \<times> metric_aggregate) list" where
  "aggregate_loop [] aggregate_results = Inr aggregate_results"
| "aggregate_loop ((name, scores) # rest) aggregate_results =
     (case np_min scores of
        Inl e \<Rightarrow> Inl e
      | Inr mn \<Rightarrow>
          (case np_max scores of
             Inl e \<Rightarrow> Inl e
           | Inr mx \<Rightarrow>
               aggregate_loop rest
                 (dict_set name
                    \<lparr>mean_stat = np_mean scores, std_stat = np_std scores, min_stat = mn,
                     max_stat = mx, median_stat = np_median scores\<rparr>
                    aggregate_results)))"

text \<open>
  \<^verbatim>\<open>evaluate_test_set\<close>.  The summary is appended to the history only when the
  whole run went through; an exception leaves the framework as it was.
\<close>

definition evaluate_test_set ::
  "RAGEvaluationFramework \<Rightarrow> test_case list \<Rightarrow> world
     \<Rightarrow> (error + evaluation_summary) \<times> RAGEvaluationFramework \<times> world" where
  "evaluate_test_set fw test_cases w =
     (case test_case_loop fw test_cases 0 [] (map (\<lambda>(name, ev). (name, [])) (evaluators fw)) w of
        (Inl e, w1) \<Rightarrow> (Inl e, fw, w1)
      | (Inr (all_results, metric_scores), w1) \<Rightarrow>
          (case aggregate_loop metric_scores [] of
             Inl e \<Rightarrow> (Inl e, fw, w1)
           | Inr aggregate_results \<Rightarrow>
               let overall = np_mean (map (\<lambda>(name, a). mean_stat a) aggregate_results) in
               case time_py w1 of (t, w2) \<Rightarrow>
                 let summary =
                       \<lparr>overall_score = overall,
                        metric_aggregates = aggregate_results,
                        individual_results = all_results,
                        test_set_size = length test_cases,
                        evaluation_timestamp = t\<rparr>
                 in (Inr summary,
                     fw\<lparr>evaluation_history := evaluation_history fw @ [summary]\<rparr>, w2)))"

text \<open>The four test cases of \<^verbatim>\<open>run_benchmark_evaluation\<close>.\<close>

definition benchmark_test_cases :: "test_case list" where
  "benchmark_test_cases =
     [\<lparr>query = ''What is RAG and how does it work?'',
       response = ''RAG (Retrieval Augmented Generation) is a technique that combines information retrieval with text generation. It works by first retrieving relevant documents from a knowledge base, then using that context to generate more accurate and informed responses.'',
       context_case =
         [''RAG combines retrieval systems with generative models to provide contextually accurate responses.'',
          ''The RAG process involves document retrieval followed by context-aware generation.'',
          ''Vector databases enable efficient similarity search for RAG implementations.''],
       ground_truth = Some ''RAG is a hybrid approach combining retrieval and generation for better AI responses.''\<rparr>,
      \<lparr>query = ''How do vector databases work in RAG systems?'',
       response = ''Vector databases store high-dimensional embeddings that represent the semantic meaning of text chunks. In RAG systems, they enable fast similarity search to find the most relevant documents for a given query.'',
       context_case =
         [''Vector databases store embeddings for efficient similarity search.'',
          ''Embeddings capture semantic meaning of text in high-dimensional space.'',
          ''Cosine similarity is commonly used for vector comparison in RAG.''],
       ground_truth = Some ''Vector databases enable semantic search through embedding storage and similarity matching.''\<rparr>,
      \<lparr>query = ''What are the benefits of prompt engineering?'',
       response = ''Prompt engineering helps optimize AI model outputs by crafting effective input prompts. Benefits include improved response quality, better task completion, and more consistent results.'',
       context_case =
         [''Prompt engineering involves crafting effective prompts for better AI responses.'',
          ''Well-designed prompts lead to more accurate and relevant outputs.'',
          ''Prompt templates can standardize and improve AI interactions.''],
       ground_truth = Some ''Prompt engineering improves AI performance through optimized input design.''\<rparr>,
      \<lparr>query = ''How does Llama 3 compare to other language models?'',
       response = ''Llama 3 is a state-of-the-art open-source language model that offers competitive performance with commercial models. It excels at reasoning, code generation, and following instructions while being freely available.'',
       context_case =
         [''Llama 3 is an open-source language model with strong performance.'',
          ''The model excels at various NLP tasks including reasoning and code generation.'',
          ''Llama 3 offers competitive performance compared to proprietary models.''],
       ground_truth = Some ''Llama 3 provides competitive open-source alternative to commercial language models.''\<rparr>]"

definition run_benchmark_evaluation ::
  "RAGEvaluationFramework \<Rightarrow> world
     \<Rightarrow> (error + evaluation_summary) \<times> RAGEvaluationFramework \<times> world" where
  "run_benchmark_evaluation fw w = evaluate_test_set fw benchmark_test_cases w"

section \<open>Notions used in the statements\<close>

text \<open>The words of a preprocessed document, and the window starts that the chunker visits.\<close>

definition words_of :: "document \<Rightarrow> string list" where
  "words_of doc = (case processed_content doc of None \<Rightarrow> [] | Some c \<Rightarrow> split_py c)"

definition window_starts :: "document \<Rightarrow> int \<Rightarrow> int list" where
  "window_starts doc step =
     map (\<lambda>j. int j * step) [0..<range_len 0 (int (length (words_of doc))) step]"

text \<open>
  The chunks of a run, document by document: what the inner loop appends for each
  document, with the counter it has reached.
\<close>

fun chunks_by_document :: "document list \<Rightarrow> int \<Rightarrow> int \<Rightarrow> nat \<Rightarrow> chunk list list" where
  "chunks_by_document [] chunk_size overlap k = []"
| "chunks_by_document (doc # docs) chunk_size overlap k =
     doc_chunks doc (words_of doc) chunk_size k (window_starts doc (chunk_size - overlap))
       # chunks_by_document docs chunk_size overlap
           (k + length (window_starts doc (chunk_size - overlap)))"

text \<open>All documents of the pipeline went through \<^verbatim>\<open>preprocess_documents\<close>.\<close>

definition preprocessed :: "RAGPipeline \<Rightarrow> bool" where
  "preprocessed p = list_all (\<lambda>d. processed_content d \<noteq> None) (documents p)"

text \<open>The pipeline after the first two steps of \<^verbatim>\<open>run_complete_pipeline\<close>.\<close>

definition loaded_pipeline :: RAGPipeline where
  "loaded_pipeline = preprocess_documents (load_documents RAGPipeline_init [])"

text \<open>The provenance and the word range of a chunk, for displaying a run.\<close>

definition chunk_span :: "chunk \<Rightarrow> string \<times> int \<times> int \<times> int" where
  "chunk_span c = (parent_doc_id c, start_idx c, end_idx c, word_count_chunk c)"

text \<open>
  The order of the search results: a higher score first, and among equal scores the
  lower position first.
\<close>

definition ranked_before :: "nat \<times> float64 \<Rightarrow> nat \<times> float64 \<Rightarrow> bool" where
  "ranked_before a b = (lt64 (snd b) (snd a) \<or> (snd a = snd b \<and> fst a < fst b))"

text \<open>The query vector that \<^verbatim>\<open>similarity_search\<close> draws in a world.\<close>

definition query_vector :: "machine \<Rightarrow> world \<Rightarrow> float64 list" where
  "query_vector m w = normalized m (map Num (fst (rand 384 w)))"

text \<open>A world whose random source always returns one half and whose clock counts up.\<close>

definition steady_world :: world where
  "steady_world = \<lparr>uniform_src = (\<lambda>k. 1 / 2), clock_src = (\<lambda>k. real k)\<rparr>"

text \<open>
  A world whose random source returns \<open>3/5\<close>, \<open>4/5\<close> and then zeros, so that a draw
  of 384 numbers has the norm 1.
\<close>

definition unit_world :: world where
  "unit_world =
     \<lparr>uniform_src = (\<lambda>k. if k = 0 then 3 / 5 else if k = 1 then 4 / 5 else 0),
      clock_src = (\<lambda>k. real k)\<rparr>"

text \<open>
  The chunks that \<^verbatim>\<open>run_complete_pipeline\<close> makes of the sample documents
  (\<open>chunk_size = 100\<close>, \<open>overlap = 20\<close>), and the pipeline after
  \<^verbatim>\<open>build_vector_database\<close> was called with them and an array of the given rows of
  384 entries.
\<close>

definition sample_chunks :: "chunk list" where
  "sample_chunks = (case chunk_documents loaded_pipeline 100 20 of Inl e \<Rightarrow> [] | Inr cs \<Rightarrow> cs)"

definition indexed_pipeline :: "float64 list list \<Rightarrow> RAGPipeline" where
  "indexed_pipeline rows =
     (case build_vector_database loaded_pipeline sample_chunks (Array2 (matrix_of 384 rows))
             steady_world of
        (Inl e, w) \<Rightarrow> loaded_pipeline
      | (Inr p, w) \<Rightarrow> p)"

text \<open>The identity, the rank and the score of a search result, for displaying a run.\<close>

definition result_view :: "search_result \<Rightarrow> string \<times> nat \<times> float64" where
  "result_view r = (chunk_id r, rank r, similarity_score r)"

subsection \<open>A machine without rounding\<close>

text \<open>
  Arithmetic on the floats that is exact on numbers and follows IEEE 754 on the
  special values, with the norm and the dot product that numpy defines.
\<close>

fun add64 :: "float64 \<Rightarrow> float64 \<Rightarrow> float64" where
  "add64 Nan b = Nan"
| "add64 a Nan = Nan"
| "add64 Pinf Ninf = Nan"
| "add64 Ninf Pinf = Nan"
| "add64 Pinf b = Pinf"
| "add64 a Pinf = Pinf"
| "add64 Ninf b = Ninf"
| "add64 a Ninf = Ninf"
| "add64 (Num x) (Num y) = Num (x + y)"

fun signed_inf :: "real \<Rightarrow> float64" where
  "signed_inf s = (if s = 0 then Nan else if 0 < s then Pinf else Ninf)"

fun mul64 :: "float64 \<Rightarrow> float64 \<Rightarrow> float64" where
  "mul64 Nan b = Nan"
| "mul64 a Nan = Nan"
| "mul64 (Num x) (Num y) = Num (x * y)"
| "mul64 (Num x) Pinf = signed_inf x"
| "mul64 (Num x) Ninf = signed_inf (- x)"
| "mul64 Pinf (Num y) = signed_inf y"
| "mul64 Ninf (Num y) = signed_inf (- y)"
| "mul64 Pinf Pinf = Pinf"
| "mul64 Ninf Ninf = Pinf"
| "mul64 Pinf Ninf = Ninf"
| "mul64 Ninf Pinf = Ninf"

fun div64 :: "float64 \<Rightarrow> float64 \<Rightarrow> float64" where
  "div64 Nan b = Nan"
| "div64 a Nan = Nan"
| "div64 (Num x) (Num y) = (if y = 0 then signed_inf x else Num (x / y))"
| "div64 (Num x) Pinf = Num 0"
| "div64 (Num x) Ninf = Num 0"
| "div64 Pinf (Num y) = (if 0 \<le> y then Pinf else Ninf)"
| "div64 Ninf (Num y) = (if 0 \<le> y then Ninf else Pinf)"
| "div64 a b = Nan"

fun sqrt64 :: "float64 \<Rightarrow> float64" where
  "sqrt64 (Num x) = (if x < 0 then Nan else Num (sqrt x))"
| "sqrt64 Pinf = Pinf"
| "sqrt64 a = Nan"

definition exact_norm :: "float64 list \<Rightarrow> float64" where
  "exact_norm v = sqrt64 (foldl add64 (Num 0) (map (\<lambda>x. mul64 x x) v))"

definition exact_dot :: "float64 list \<Rightarrow> float64 list \<Rightarrow> float64" where
  "exact_dot a b = foldl add64 (Num 0) (map (\<lambda>(x, y). mul64 x y) (zip a b))"

text \<open>
  The sort of CPython 3.11 for a list of fewer than 64 elements: the run at the
  start of the list is found (\<^verbatim>\<open>count_run\<close>; a strictly descending run is
  reversed), and the other elements are inserted into it one by one at the place a
  binary search gives (\<^verbatim>\<open>binarysort\<close>).  Only \<open>lt64\<close> compares.
\<close>

fun ascending_run ::
  "float64 \<Rightarrow> (nat \<times> float64) list \<Rightarrow> (nat \<times> float64) list \<times> (nat \<times> float64) list" where
  "ascending_run prev [] = ([], [])"
| "ascending_run prev (x # xs) =
     (if lt64 (snd x) prev then ([], x # xs)
      else case ascending_run (snd x) xs of (run, rest) \<Rightarrow> (x # run, rest))"

fun descending_run ::
  "float64 \<Rightarrow> (nat \<times> float64) list \<Rightarrow> (nat \<times> float64) list \<times> (nat \<times> float64) list" where
  "descending_run prev [] = ([], [])"
| "descending_run prev (x # xs) =
     (if lt64 (snd x) prev
      then case descending_run (snd x) xs of (run, rest) \<Rightarrow> (x # run, rest)
      else ([], x # xs))"

fun count_run ::
  "(nat \<times> float64) list \<Rightarrow> (nat \<times> float64) list \<times> (nat \<times> float64) list" where
  "count_run [] = ([], [])"
| "count_run [x] = ([x], [])"
| "count_run (x # y # zs) =
     (if lt64 (snd y) (snd x)
      then case descending_run (snd y) zs of (run, rest) \<Rightarrow> (rev (x # y # run), rest)
      else case ascending_run (snd y) zs of (run, rest) \<Rightarrow> (x # y # run, rest))"

function bisect :: "float64 \<Rightarrow> (nat \<times> float64) list \<Rightarrow> nat \<Rightarrow> nat \<Rightarrow> nat" where
  "bisect pivot a l r =
     (if l < r
      then let p = l + (r - l) div 2
           in if lt64 pivot (snd (a ! p)) then bisect pivot a l p else bisect pivot a (p + 1) r
      else l)"
  by pat_completeness auto
termination
  by (relation "measure (\<lambda>(pivot, a, l, r). r - l)") auto

definition insert_pivot :: "(nat \<times> float64) list \<Rightarrow> nat \<times> float64 \<Rightarrow> (nat \<times> float64) list" where
  "insert_pivot a x = (let l = bisect (snd x) a 0 (length a) in take l a @ [x] @ drop l a)"

definition cpython_sort_reverse :: "(nat \<times> float64) list \<Rightarrow> (nat \<times> float64) list" where
  "cpython_sort_reverse xs =
     rev (case count_run (rev xs) of (run, rest) \<Rightarrow> foldl insert_pivot run rest)"

definition exact_machine :: machine where
  "exact_machine =
     \<lparr>norm_op = exact_norm, divide_op = div64, dot_op = exact_dot,
      sort_nan_op = cpython_sort_reverse\<rparr>"

text \<open>The names of the five metrics, in the order of the registry.\<close>

definition metric_names :: "string list" where
  "metric_names = map fst (evaluators RAGEvaluationFramework_init)"

text \<open>The list of the per-metric means of a summary.\<close>

definition metric_means :: "evaluation_summary \<Rightarrow> float_py list" where
  "metric_means summary = map (\<lambda>(name, a). mean_stat a) (metric_aggregates summary)"

text \<open>A dictionary with the five metric names as keys, in the order of the registry.\<close>

definition metric_table :: "'a \<Rightarrow> 'a \<Rightarrow> 'a \<Rightarrow> 'a \<Rightarrow> 'a \<Rightarrow> (string \<times> 'a) list" where
  "metric_table a b c d e =
     [(''retrieval_accuracy'', a), (''generation_quality'', b), (''faithfulness'', c),
      (''context_relevance'', d), (''answer_relevance'', e)]"

text \<open>The five statistics of a non-empty list of scores that holds no not-a-number.\<close>

definition statistics :: "real list \<Rightarrow> metric_aggregate" where
  "statistics vs =
     \<lparr>mean_stat = np_mean (map Fl vs), std_stat = np_std (map Fl vs),
      min_stat = Fl (fold min (tl vs) (hd vs)), max_stat = Fl (fold max (tl vs) (hd vs)),
      median_stat = np_median (map Fl vs)\<rparr>"

section \<open>Properties of the chunker\<close>

subsection \<open>The windows of one document\<close>

lemma range_len_pos:
  assumes "0 < step" "0 < n"
  shows "range_len 0 n step = nat ((n - 1) div step + 1)"
  using assms by (simp add: range_len_def)

lemma range_len_bounds:
  assumes "0 < step" "0 < n"
  shows "(int (range_len 0 n step) - 1) * step \<le> n - 1" "n - 1 < int (range_len 0 n step) * step"
proof -
  let ?q = "(n - 1) div step"
  have q0: "0 \<le> ?q" using assms by (simp add: pos_imp_zdiv_nonneg_iff)
  have m: "int (range_len 0 n step) = ?q + 1" using assms q0 by (simp add: range_len_def)
  have "?q * step \<le> n - 1" using assms by (metis div_mult_mod_eq add.commute le_add_same_cancel1 mult.commute pos_mod_sign add_increasing2 order_refl)
  then show "(int (range_len 0 n step) - 1) * step \<le> n - 1" using m by simp
  have "n - 1 = ?q * step + (n - 1) mod step" by simp
  moreover have "(n - 1) mod step < step" using assms by simp
  ultimately have "n - 1 < ?q * step + step" by linarith
  then show "n - 1 < int (range_len 0 n step) * step" using m by (simp add: algebra_simps)
qed

lemma range_len_nonpos: "step < 0 \<Longrightarrow> 0 \<le> n \<Longrightarrow> range_len 0 n step = 0"
  by (simp add: range_len_def)

lemma doc_chunks_map:
  "doc_chunks doc ws cs k (map f [0..<m]) = map (\<lambda>j. make_chunk doc ws cs (k + j) (f j)) [0..<m]"
  by (rule nth_equalityI) (simp_all add: doc_chunks_def nth_enumerate_eq)

lemma length_slice_py:
  assumes "0 \<le> i" "i < int (length ws)" "0 < cs"
  shows "int (length (slice_py ws i (i + cs))) = min (i + cs) (int (length ws)) - i"
  using assms by (auto simp: slice_py_def slice_bound_def Let_def min_def)


lemma doc_chunks_nth:
  assumes "i < m" "0 < cs" "0 < step" "int i * step < int (length ws)"
  shows "start_idx (doc_chunks doc ws cs k (map (\<lambda>j. int j * step) [0..<m]) ! i) = int i * step"
    and "end_idx (doc_chunks doc ws cs k (map (\<lambda>j. int j * step) [0..<m]) ! i)
           = min (int i * step + cs) (int (length ws))"
    and "word_count_chunk (doc_chunks doc ws cs k (map (\<lambda>j. int j * step) [0..<m]) ! i)
           = min (int i * step + cs) (int (length ws)) - int i * step"
    and "chunk_id (doc_chunks doc ws cs k (map (\<lambda>j. int j * step) [0..<m]) ! i)
           = ''chunk_'' @ str_nat (k + i)"
proof -
  have nn: "0 \<le> int i * step" using assms(3) by simp
  show "start_idx (doc_chunks doc ws cs k (map (\<lambda>j. int j * step) [0..<m]) ! i) = int i * step"
    using assms(1) by (simp add: doc_chunks_map make_chunk_def Let_def)
  show "end_idx (doc_chunks doc ws cs k (map (\<lambda>j. int j * step) [0..<m]) ! i)
           = min (int i * step + cs) (int (length ws))"
    using assms(1) by (simp add: doc_chunks_map make_chunk_def Let_def)
  show "word_count_chunk (doc_chunks doc ws cs k (map (\<lambda>j. int j * step) [0..<m]) ! i)
           = min (int i * step + cs) (int (length ws)) - int i * step"
    using assms(1) length_slice_py [OF nn assms(4) assms(2)]
    by (simp add: doc_chunks_map make_chunk_def Let_def)
  show "chunk_id (doc_chunks doc ws cs k (map (\<lambda>j. int j * step) [0..<m]) ! i)
           = ''chunk_'' @ str_nat (k + i)"
    using assms(1) by (simp add: doc_chunks_map make_chunk_def Let_def)
qed

lemma length_doc_chunks: "length (doc_chunks doc ws cs k starts) = length starts"
  by (simp add: doc_chunks_def)

lemma start_below_len:
  assumes "0 < step" "0 < n" "i < range_len 0 n step"
  shows "int i * step < n"
proof -
  have "int i \<le> int (range_len 0 n step) - 1" using assms(3) by simp
  then have "int i * step \<le> (int (range_len 0 n step) - 1) * step"
    using assms(1) by (simp add: mult_right_mono)
  with range_len_bounds(1) [OF assms(1,2)] show ?thesis by simp
qed

lemma div_below_range_len:
  assumes "0 < step" "0 < n" "0 \<le> x" "x < n"
  shows "nat (x div step) < range_len 0 n step"
proof -
  have "x div step \<le> (n - 1) div step" using assms by (simp add: zdiv_mono1)
  moreover have "0 \<le> x div step" using assms by (simp add: pos_imp_zdiv_nonneg_iff)
  ultimately show ?thesis using assms by (simp add: range_len_def)
qed


lemma chunk_loop_concat:
  assumes "\<forall>d\<in>set docs. processed_content d \<noteq> None" "chunk_size \<noteq> overlap"
  shows "chunk_loop docs chunk_size overlap acc k
           = Inr (acc @ concat (chunks_by_document docs chunk_size overlap k))"
  using assms(1)
proof (induction docs arbitrary: acc k)
  case Nil
  then show ?case by simp
next
  case (Cons d ds)
  from Cons.prems obtain c where c: "processed_content d = Some c" by auto
  have r: "range_py 0 (int (length (split_py c))) (chunk_size - overlap)
             = Inr (window_starts d (chunk_size - overlap))"
    using assms(2) c by (simp add: range_py_def window_starts_def words_of_def)
  have w: "words_of d = split_py c" using c by (simp add: words_of_def)
  show ?case using Cons.prems c r w by (simp add: Cons.IH Let_def)
qed

lemma length_chunks_by_document:
  "length (chunks_by_document docs chunk_size overlap k) = length docs"
  by (induction docs arbitrary: k) simp_all

lemma chunks_by_document_nth:
  "j < length docs \<Longrightarrow>
     \<exists>k'. chunks_by_document docs chunk_size overlap k ! j
            = doc_chunks (docs ! j) (words_of (docs ! j)) chunk_size k'
                (window_starts (docs ! j) (chunk_size - overlap))"
proof (induction docs arbitrary: k j)
  case Nil
  then show ?case by simp
next
  case (Cons d ds)
  show ?case
  proof (cases j)
    case 0
    then show ?thesis by auto
  next
    case (Suc j')
    with Cons.prems have "j' < length ds" by simp
    from Cons.IH [OF this] Suc show ?thesis by simp
  qed
qed


lemma doc_chunks_cover:
  fixes ws :: "string list" and doc :: document and k :: nat
  assumes ov: "0 \<le> ov" "ov < cs" and ne: "ws \<noteq> []"
  defines "n \<equiv> int (length ws)"
  defines "step \<equiv> cs - ov"
  defines "m \<equiv> range_len 0 n step"
  defines "cj \<equiv> doc_chunks doc ws cs k (map (\<lambda>j. int j * step) [0..<m])"
  shows "(\<Union>c\<in>set cj. {start_idx c..<end_idx c}) = {0..<n}"
    and "\<forall>i. Suc i < length cj \<longrightarrow> start_idx (cj ! Suc i) \<le> end_idx (cj ! i)"
    and "\<forall>c\<in>set cj. word_count_chunk c = end_idx c - start_idx c
            \<and> (start_idx c + cs \<le> n \<longrightarrow> word_count_chunk c = cs)"
    and "ov = 0 \<longrightarrow> (\<forall>c\<in>set (butlast cj). word_count_chunk c = cs)"
proof -
  have step: "0 < step" and cs: "0 < cs" and sc: "step \<le> cs" and n: "0 < n"
    using ov ne by (simp_all add: step_def n_def)
  have len: "length cj = m" by (simp add: cj_def length_doc_chunks)
  have below: "int i * step < n" if "i < m" for i
    using start_below_len [OF step n] that by (simp add: m_def)
  have st: "start_idx (cj ! i) = int i * step"
    and en: "end_idx (cj ! i) = min (int i * step + cs) n"
    and wc: "word_count_chunk (cj ! i) = min (int i * step + cs) n - int i * step"
    if "i < m" for i
    using doc_chunks_nth(1-3) [OF that cs step, of ws doc k] below [OF that]
    by (simp_all add: cj_def n_def)
  show "(\<Union>c\<in>set cj. {start_idx c..<end_idx c}) = {0..<n}"
  proof (rule set_eqI, rule iffI)
    fix x assume "x \<in> (\<Union>c\<in>set cj. {start_idx c..<end_idx c})"
    then obtain i where i: "i < m" and x: "start_idx (cj ! i) \<le> x" "x < end_idx (cj ! i)"
      by (auto simp: in_set_conv_nth len)
    have "0 \<le> int i * step" using step by simp
    with x st [OF i] en [OF i] show "x \<in> {0..<n}" by simp
  next
    fix x assume "x \<in> {0..<n}"
    then have x: "0 \<le> x" "x < n" by simp_all
    let ?i = "nat (x div step)"
    have i: "?i < m" using div_below_range_len [OF step n x] by (simp add: m_def)
    have q: "0 \<le> x div step" using x step by (simp add: pos_imp_zdiv_nonneg_iff)
    have lo: "int ?i * step \<le> x"
      using q step by (metis div_mult_mod_eq add.commute le_add_same_cancel1 mult.commute pos_mod_sign add_increasing2 order_refl nat_0_le)
    have "x = (x div step) * step + x mod step" by simp
    moreover have "x mod step < step" using step by simp
    ultimately have "x < (x div step) * step + step" by linarith
    then have hi: "x < int ?i * step + cs" using q sc by simp
    have "x \<in> {start_idx (cj ! ?i)..<end_idx (cj ! ?i)}"
      using lo hi x st [OF i] en [OF i] by simp
    moreover have "cj ! ?i \<in> set cj" using i len by simp
    ultimately show "x \<in> (\<Union>c\<in>set cj. {start_idx c..<end_idx c})" by blast
  qed
  show "\<forall>i. Suc i < length cj \<longrightarrow> start_idx (cj ! Suc i) \<le> end_idx (cj ! i)"
  proof (intro allI impI)
    fix i assume s: "Suc i < length cj"
    then have i: "i < m" and si: "Suc i < m" by (simp_all add: len)
    have "int (Suc i) * step \<le> int i * step + cs" using sc by (simp add: algebra_simps)
    moreover have "int (Suc i) * step < n" by (rule below [OF si])
    ultimately show "start_idx (cj ! Suc i) \<le> end_idx (cj ! i)"
      using st [OF si] en [OF i] by simp
  qed
  show "\<forall>c\<in>set cj. word_count_chunk c = end_idx c - start_idx c
            \<and> (start_idx c + cs \<le> n \<longrightarrow> word_count_chunk c = cs)"
  proof
    fix c assume "c \<in> set cj"
    then obtain i where i: "i < m" and c: "c = cj ! i" by (auto simp: in_set_conv_nth len)
    show "word_count_chunk c = end_idx c - start_idx c
            \<and> (start_idx c + cs \<le> n \<longrightarrow> word_count_chunk c = cs)"
      using st [OF i] en [OF i] wc [OF i] c by simp
  qed
  show "ov = 0 \<longrightarrow> (\<forall>c\<in>set (butlast cj). word_count_chunk c = cs)"
  proof (intro impI ballI)
    fix c assume z: "ov = 0" and "c \<in> set (butlast cj)"
    then obtain i where i: "i < length (butlast cj)" and c: "c = butlast cj ! i"
      by (auto simp: in_set_conv_nth)
    from i have si: "Suc i < m" and im: "i < m" by (simp_all add: len)
    have c': "c = cj ! i" using c i by (simp add: nth_butlast)
    have "int (Suc i) * step < n" by (rule below [OF si])
    then have "int i * step + cs \<le> n" using z by (simp add: step_def algebra_simps)
    then show "word_count_chunk c = cs" using wc [OF im] c' by simp
  qed
qed


lemma window_starts_range:
  "step \<noteq> 0 \<Longrightarrow> range_py 0 (int (length (words_of d))) step = Inr (window_starts d step)"
  by (simp add: range_py_def window_starts_def)

lemma chunk_documents_by_document:
  assumes "preprocessed p" "chunk_size \<noteq> overlap"
  shows "chunk_documents p chunk_size overlap
           = Inr (concat (chunks_by_document (documents p) chunk_size overlap 0))"
  using chunk_loop_concat [of "documents p" chunk_size overlap "[]" 0] assms
  by (simp add: chunk_documents_def preprocessed_def list_all_iff)

lemma preprocessed_preprocess_documents: "preprocessed (preprocess_documents p)"
  by (simp add: preprocessed_def preprocess_documents_def preprocess_document_def Let_def
        list_all_iff)

lemma window_starts_nonpos:
  "step < 0 \<Longrightarrow> window_starts d step = []"
  by (simp add: window_starts_def range_len_def)

lemma concat_chunks_by_document_neg:
  "chunk_size < overlap \<Longrightarrow> concat (chunks_by_document docs chunk_size overlap k) = []"
  by (induction docs arbitrary: k) (simp_all add: window_starts_nonpos doc_chunks_def)

lemma range_len_one: "0 < n \<Longrightarrow> n \<le> step \<Longrightarrow> range_len 0 n step = 1"
  by (simp add: range_len_def div_pos_pos_trivial)

lemma range_len_positive: "0 < n \<Longrightarrow> 0 < step \<Longrightarrow> 0 < range_len 0 n step"
  by (simp add: range_len_def pos_imp_zdiv_nonneg_iff)

lemma slice_py_whole: "int (length ws) \<le> cs \<Longrightarrow> slice_py ws 0 cs = ws"
  by (simp add: slice_py_def slice_bound_def Let_def)

lemma first_chunk_whole:
  fixes ws :: "string list" and doc :: document and k :: nat
  assumes "0 < step" "ws \<noteq> []" "int (length ws) \<le> cs"
  defines "cj \<equiv> doc_chunks doc ws cs k (map (\<lambda>j. int j * step) [0..<range_len 0 (int (length ws)) step])"
  shows "cj \<noteq> []" and "start_idx (cj ! 0) = 0" and "end_idx (cj ! 0) = int (length ws)"
    and "word_count_chunk (cj ! 0) = int (length ws)"
    and "content_chunk (cj ! 0) = join_py '' '' ws"
proof -
  have m: "0 < range_len 0 (int (length ws)) step"
    using assms(1,2) by (simp add: range_len_positive)
  then show "cj \<noteq> []" by (simp add: cj_def doc_chunks_map)
  show "start_idx (cj ! 0) = 0" using m by (simp add: cj_def doc_chunks_map make_chunk_def Let_def)
  show "end_idx (cj ! 0) = int (length ws)"
    using m assms(3) by (simp add: cj_def doc_chunks_map make_chunk_def Let_def)
  show "word_count_chunk (cj ! 0) = int (length ws)"
    using m assms(3) by (simp add: cj_def doc_chunks_map make_chunk_def Let_def slice_py_whole)
  show "content_chunk (cj ! 0) = join_py '' '' ws"
    using m assms(3) by (simp add: cj_def doc_chunks_map make_chunk_def Let_def slice_py_whole)
qed


lemma range_len_two: "0 < step \<Longrightarrow> step < n \<Longrightarrow> 2 \<le> range_len 0 n step"
proof -
  assume s: "0 < step" and n: "step < n"
  have "step div step \<le> (n - 1) div step"
    using s n by (intro zdiv_mono1) simp_all
  then have "1 \<le> (n - 1) div step"
    using s by simp
  then show ?thesis using s n by (simp add: range_len_def)
qed

lemma later_chunks_short:
  fixes ws :: "string list" and doc :: document and k :: nat
  assumes "0 < step" "0 < cs" "ws \<noteq> []" "int (length ws) < cs"
  defines "cj \<equiv> doc_chunks doc ws cs k (map (\<lambda>j. int j * step) [0..<range_len 0 (int (length ws)) step])"
  assumes i: "0 < i" "i < length cj"
  shows "start_idx (cj ! i) = int i * step" and "end_idx (cj ! i) = int (length ws)"
    and "word_count_chunk (cj ! i) = int (length ws) - int i * step"
    and "word_count_chunk (cj ! i) < int (length ws)"
proof -
  have n: "0 < int (length ws)" using assms(3) by simp
  have im: "i < range_len 0 (int (length ws)) step" using i(2) by (simp add: cj_def length_doc_chunks)
  have below: "int i * step < int (length ws)" by (rule start_below_len [OF assms(1) n im])
  note f = doc_chunks_nth(1-3) [OF im assms(2) assms(1) below, of doc k, folded cj_def]
  have pos: "0 < int i * step" using i(1) assms(1) by simp
  show "start_idx (cj ! i) = int i * step" by (rule f(1))
  show "end_idx (cj ! i) = int (length ws)" using f(2) assms(4) pos by simp
  show "word_count_chunk (cj ! i) = int (length ws) - int i * step" using f(3) assms(4) pos by simp
  then show "word_count_chunk (cj ! i) < int (length ws)" using pos by simp
qed

subsection \<open>Coverage and chunk sizes\<close>

text \<open>
  Claim C1, as the code has it.  For \<open>0 \<le> overlap < chunk_size\<close> and preprocessed
  documents, \<^verbatim>\<open>chunk_documents\<close> returns the concatenation of one chunk list for
  each document.  For a document with at least one word, the word ranges
  \<open>[start_idx, end_idx)\<close> of its chunks cover exactly \<open>[0, n)\<close>, each chunk starts at
  or before the end of the one before it (no gap), and each chunk holds
  \<open>end_idx - start_idx\<close> words: exactly \<open>chunk_size\<close> when its window
  \<open>[start_idx, start_idx + chunk_size)\<close> fits into the document, and in particular
  every chunk but the last when \<open>overlap = 0\<close>.
\<close>

theorem chunks_cover_document:
  assumes "0 \<le> overlap" "overlap < chunk_size" "preprocessed p"
  shows "\<exists>css. chunk_documents p chunk_size overlap = Inr (concat css)
           \<and> length css = length (documents p)
           \<and> (\<forall>j<length (documents p).
                 words_of (documents p ! j) \<noteq> [] \<longrightarrow>
                   (\<Union>c\<in>set (css ! j). {start_idx c..<end_idx c})
                      = {0..<int (length (words_of (documents p ! j)))}
                 \<and> (\<forall>i. Suc i < length (css ! j)
                        \<longrightarrow> start_idx (css ! j ! Suc i) \<le> end_idx (css ! j ! i))
                 \<and> (\<forall>c\<in>set (css ! j).
                        word_count_chunk c = end_idx c - start_idx c
                        \<and> (start_idx c + chunk_size \<le> int (length (words_of (documents p ! j)))
                             \<longrightarrow> word_count_chunk c = chunk_size))
                 \<and> (overlap = 0 \<longrightarrow> (\<forall>c\<in>set (butlast (css ! j)). word_count_chunk c = chunk_size)))"
proof -
  let ?css = "chunks_by_document (documents p) chunk_size overlap 0"
  have run: "chunk_documents p chunk_size overlap = Inr (concat ?css)"
    using assms by (simp add: chunk_documents_by_document)
  have len: "length ?css = length (documents p)" by (rule length_chunks_by_document)
  have each: "(\<Union>c\<in>set (?css ! j). {start_idx c..<end_idx c})
                 = {0..<int (length (words_of (documents p ! j)))}
      \<and> (\<forall>i. Suc i < length (?css ! j)
             \<longrightarrow> start_idx (?css ! j ! Suc i) \<le> end_idx (?css ! j ! i))
      \<and> (\<forall>c\<in>set (?css ! j).
             word_count_chunk c = end_idx c - start_idx c
             \<and> (start_idx c + chunk_size \<le> int (length (words_of (documents p ! j)))
                  \<longrightarrow> word_count_chunk c = chunk_size))
      \<and> (overlap = 0 \<longrightarrow> (\<forall>c\<in>set (butlast (?css ! j)). word_count_chunk c = chunk_size))"
    if j: "j < length (documents p)" and ne: "words_of (documents p ! j) \<noteq> []" for j
  proof -
    let ?d = "documents p ! j"
    from chunks_by_document_nth [OF j, of chunk_size overlap 0]
    obtain k' where k': "?css ! j = doc_chunks ?d (words_of ?d) chunk_size k'
                            (window_starts ?d (chunk_size - overlap))" by blast
    note cov = doc_chunks_cover [OF assms(1,2) ne, of ?d k', folded window_starts_def]
    show ?thesis unfolding k' using cov by blast
  qed
  show ?thesis
    by (rule exI [of _ ?css]) (use run len each in blast)
qed



theorem chunks_cover_document_witness:
  "(0::int) \<le> 0 \<and> (0::int) < 6 \<and> preprocessed loaded_pipeline
   \<and> 0 < length (documents loaded_pipeline)
   \<and> words_of (documents loaded_pipeline ! 0) \<noteq> []
   \<and> (\<exists>css. chunk_documents loaded_pipeline 6 0 = Inr (concat css)
         \<and> (\<Union>c\<in>set (css ! 0). {start_idx c..<end_idx c})
              = {0..<int (length (words_of (documents loaded_pipeline ! 0)))}
         \<and> (\<forall>c\<in>set (butlast (css ! 0)). word_count_chunk c = 6))"
proof -
  have p: "preprocessed loaded_pipeline"
    unfolding loaded_pipeline_def by (rule preprocessed_preprocess_documents)
  have l: "0 < length (documents loaded_pipeline)"
    by (simp add: loaded_pipeline_def preprocess_documents_def load_documents_def sample_docs_def)
  have w: "words_of (documents loaded_pipeline ! 0) \<noteq> []"
    by code_simp
  from chunks_cover_document [of 0 6 loaded_pipeline, OF _ _ p]
  obtain css where run: "chunk_documents loaded_pipeline 6 0 = Inr (concat css)"
    and each: "\<forall>j<length (documents loaded_pipeline).
                 words_of (documents loaded_pipeline ! j) \<noteq> [] \<longrightarrow>
                   (\<Union>c\<in>set (css ! j). {start_idx c..<end_idx c})
                      = {0..<int (length (words_of (documents loaded_pipeline ! j)))}
                 \<and> (\<forall>i. Suc i < length (css ! j)
                        \<longrightarrow> start_idx (css ! j ! Suc i) \<le> end_idx (css ! j ! i))
                 \<and> (\<forall>c\<in>set (css ! j).
                        word_count_chunk c = end_idx c - start_idx c
                        \<and> (start_idx c + 6 \<le> int (length (words_of (documents loaded_pipeline ! j)))
                             \<longrightarrow> word_count_chunk c = 6))
                 \<and> ((0::int) = 0 \<longrightarrow> (\<forall>c\<in>set (butlast (css ! j)). word_count_chunk c = 6))"
    by auto
  from each l w
  have "(\<Union>c\<in>set (css ! 0). {start_idx c..<end_idx c})
          = {0..<int (length (words_of (documents loaded_pipeline ! 0)))}
        \<and> (\<forall>c\<in>set (butlast (css ! 0)). word_count_chunk c = 6)"
    by blast
  with run p l w show ?thesis by (simp del: UN_iff) blast
qed



text \<open>
  With an overlap the windows near the end of a document are cut short before the
  last one is reached: the sample documents chunked with \<open>chunk_size = 10\<close> and
  \<open>overlap = 5\<close>.  The second of the three chunks of \<open>doc_3\<close> holds 8 words, and the
  third of the four chunks of \<open>doc_4\<close> holds 9.
\<close>

theorem chunk_sizes_counterexample:
  "map_sum id (map chunk_span) (chunk_documents loaded_pipeline 10 5)
     = Inr [(''doc_1'', 0, 10, 10), (''doc_1'', 5, 15, 10), (''doc_1'', 10, 15, 5),
            (''doc_2'', 0, 10, 10), (''doc_2'', 5, 15, 10), (''doc_2'', 10, 15, 5),
            (''doc_3'', 0, 10, 10), (''doc_3'', 5, 13, 8), (''doc_3'', 10, 13, 3),
            (''doc_4'', 0, 10, 10), (''doc_4'', 5, 15, 10), (''doc_4'', 10, 19, 9),
            (''doc_4'', 15, 19, 4)]"
  by code_simp

subsection \<open>Parameters that are not checked\<close>

text \<open>
  Claim C6, as the code has it.  \<^verbatim>\<open>chunk_documents\<close> does not check its parameters.
  With \<open>chunk_size \<le> overlap\<close> and preprocessed documents, the call fails only when
  \<open>chunk_size = overlap\<close> and there is a document, through the zero step of
  \<^verbatim>\<open>range\<close>; in every other case it returns the empty list of chunks.
\<close>

theorem chunk_documents_unchecked_step:
  assumes "chunk_size \<le> overlap" "preprocessed p"
  shows "chunk_documents p chunk_size overlap
           = (if chunk_size = overlap \<and> documents p \<noteq> []
              then Inl (ValueError ''range() arg 3 must not be zero'') else Inr [])"
proof (cases "chunk_size = overlap")
  case False
  with assms(1) have lt: "chunk_size < overlap" by simp
  show ?thesis
    using chunk_documents_by_document [OF assms(2) False] lt
    by (simp add: concat_chunks_by_document_neg)
next
  case True
  show ?thesis
  proof (cases "documents p")
    case Nil
    then show ?thesis by (simp add: chunk_documents_def)
  next
    case (Cons d ds)
    with assms(2) obtain c where "processed_content d = Some c"
      by (auto simp: preprocessed_def)
    with Cons True show ?thesis
      by (simp add: chunk_documents_def range_py_def)
  qed
qed


theorem chunk_documents_unchecked_step_witness:
  "(3::int) \<le> 3 \<and> preprocessed loaded_pipeline
   \<and> chunk_documents loaded_pipeline 3 3 = Inl (ValueError ''range() arg 3 must not be zero'')"
proof -
  have p: "preprocessed loaded_pipeline"
    unfolding loaded_pipeline_def by (rule preprocessed_preprocess_documents)
  have l: "documents loaded_pipeline \<noteq> []"
    by (simp add: loaded_pipeline_def preprocess_documents_def load_documents_def sample_docs_def)
  show ?thesis
    using chunk_documents_unchecked_step [of 3 3 loaded_pipeline, OF _ p] p l by simp
qed



text \<open>The sample documents chunked with \<open>chunk_size = 3\<close> and \<open>overlap = 5\<close>: no error.\<close>

theorem no_validation_counterexample:
  "chunk_documents loaded_pipeline 3 5 = Inr []"
  by code_simp


subsection \<open>Short documents\<close>

text \<open>
  Claim C7, as the code has it.  For \<open>0 \<le> overlap < chunk_size\<close> and preprocessed
  documents, a document with \<open>n > 0\<close> words yields exactly
  \<open>(n - 1) div (chunk_size - overlap) + 1\<close> chunks: exactly one when
  \<open>n \<le> chunk_size - overlap\<close>, and at least two when \<open>n > chunk_size - overlap\<close>.
  When \<open>0 < n < chunk_size\<close>, the first chunk spans the whole document (word range
  \<open>[0, n)\<close>, \<open>n\<close> words, all the text), and every further chunk, the one at
  position \<open>i \<ge> 1\<close>, spans \<open>[i * (chunk_size - overlap), n)\<close> and so holds fewer than
  \<open>n\<close> words.
\<close>

theorem short_document_chunks:
  assumes "0 \<le> overlap" "overlap < chunk_size" "preprocessed p"
  shows "\<exists>css. chunk_documents p chunk_size overlap = Inr (concat css)
           \<and> length css = length (documents p)
           \<and> (\<forall>j<length (documents p).
                 (words_of (documents p ! j) \<noteq> []
                    \<and> int (length (words_of (documents p ! j))) \<le> chunk_size - overlap
                  \<longrightarrow> length (css ! j) = 1)
                 \<and> (words_of (documents p ! j) \<noteq> []
                    \<and> int (length (words_of (documents p ! j))) < chunk_size
                  \<longrightarrow> css ! j \<noteq> []
                      \<and> start_idx (css ! j ! 0) = 0
                      \<and> end_idx (css ! j ! 0) = int (length (words_of (documents p ! j)))
                      \<and> word_count_chunk (css ! j ! 0) = int (length (words_of (documents p ! j)))
                      \<and> content_chunk (css ! j ! 0) = join_py '' '' (words_of (documents p ! j)))
                 \<and> (words_of (documents p ! j) \<noteq> []
                  \<longrightarrow> int (length (css ! j))
                        = (int (length (words_of (documents p ! j))) - 1) div (chunk_size - overlap) + 1)
                 \<and> (words_of (documents p ! j) \<noteq> []
                    \<and> chunk_size - overlap < int (length (words_of (documents p ! j)))
                  \<longrightarrow> 2 \<le> length (css ! j))
                 \<and> (words_of (documents p ! j) \<noteq> []
                    \<and> int (length (words_of (documents p ! j))) < chunk_size
                  \<longrightarrow> (\<forall>i. 0 < i \<and> i < length (css ! j) \<longrightarrow>
                          start_idx (css ! j ! i) = int i * (chunk_size - overlap)
                          \<and> end_idx (css ! j ! i) = int (length (words_of (documents p ! j)))
                          \<and> word_count_chunk (css ! j ! i)
                              = int (length (words_of (documents p ! j))) - int i * (chunk_size - overlap)
                          \<and> word_count_chunk (css ! j ! i) < int (length (words_of (documents p ! j))))))"
proof -
  let ?css = "chunks_by_document (documents p) chunk_size overlap 0"
  have step: "0 < chunk_size - overlap" using assms(2) by simp
  have cs: "0 < chunk_size" using assms(1,2) by simp
  have run: "chunk_documents p chunk_size overlap = Inr (concat ?css)"
    using assms by (simp add: chunk_documents_by_document)
  have len: "length ?css = length (documents p)" by (rule length_chunks_by_document)
  have each: "(words_of (documents p ! j) \<noteq> []
                    \<and> int (length (words_of (documents p ! j))) \<le> chunk_size - overlap
                  \<longrightarrow> length (?css ! j) = 1)
                 \<and> (words_of (documents p ! j) \<noteq> []
                    \<and> int (length (words_of (documents p ! j))) < chunk_size
                  \<longrightarrow> ?css ! j \<noteq> []
                      \<and> start_idx (?css ! j ! 0) = 0
                      \<and> end_idx (?css ! j ! 0) = int (length (words_of (documents p ! j)))
                      \<and> word_count_chunk (?css ! j ! 0) = int (length (words_of (documents p ! j)))
                      \<and> content_chunk (?css ! j ! 0) = join_py '' '' (words_of (documents p ! j)))
                 \<and> (words_of (documents p ! j) \<noteq> []
                  \<longrightarrow> int (length (?css ! j))
                        = (int (length (words_of (documents p ! j))) - 1) div (chunk_size - overlap) + 1)
                 \<and> (words_of (documents p ! j) \<noteq> []
                    \<and> chunk_size - overlap < int (length (words_of (documents p ! j)))
                  \<longrightarrow> 2 \<le> length (?css ! j))
                 \<and> (words_of (documents p ! j) \<noteq> []
                    \<and> int (length (words_of (documents p ! j))) < chunk_size
                  \<longrightarrow> (\<forall>i. 0 < i \<and> i < length (?css ! j) \<longrightarrow>
                          start_idx (?css ! j ! i) = int i * (chunk_size - overlap)
                          \<and> end_idx (?css ! j ! i) = int (length (words_of (documents p ! j)))
                          \<and> word_count_chunk (?css ! j ! i)
                              = int (length (words_of (documents p ! j))) - int i * (chunk_size - overlap)
                          \<and> word_count_chunk (?css ! j ! i) < int (length (words_of (documents p ! j)))))"
    if j: "j < length (documents p)" for j
  proof -
    let ?d = "documents p ! j"
    let ?n = "int (length (words_of ?d))"
    from chunks_by_document_nth [OF j, of chunk_size overlap 0]
    obtain k' where k': "?css ! j = doc_chunks ?d (words_of ?d) chunk_size k'
                            (window_starts ?d (chunk_size - overlap))" by blast
    have count: "length (?css ! j) = range_len 0 ?n (chunk_size - overlap)"
      by (simp add: k' length_doc_chunks window_starts_def)
    have one: "length (?css ! j) = 1"
      if "words_of ?d \<noteq> []" "?n \<le> chunk_size - overlap"
      using that by (simp add: count range_len_one)
    have whole: "?css ! j \<noteq> [] \<and> start_idx (?css ! j ! 0) = 0
        \<and> end_idx (?css ! j ! 0) = ?n
        \<and> word_count_chunk (?css ! j ! 0) = ?n
        \<and> content_chunk (?css ! j ! 0) = join_py '' '' (words_of ?d)"
      if ne: "words_of ?d \<noteq> []" and lt: "?n < chunk_size"
    proof -
      from lt have le: "?n \<le> chunk_size" by simp
      note f = first_chunk_whole [OF step ne le, of ?d k', folded window_starts_def]
      show ?thesis unfolding k' using f by blast
    qed
    have number: "int (length (?css ! j)) = (?n - 1) div (chunk_size - overlap) + 1"
      if ne: "words_of ?d \<noteq> []"
    proof -
      have n: "0 < ?n" using ne by simp
      have "0 \<le> (?n - 1) div (chunk_size - overlap)"
        using n step by (simp add: pos_imp_zdiv_nonneg_iff)
      then show ?thesis using n step by (simp add: count range_len_pos)
    qed
    have two: "2 \<le> length (?css ! j)"
      if "words_of ?d \<noteq> []" "chunk_size - overlap < ?n"
      using range_len_two [OF step that(2)] by (simp add: count)
    have later: "\<forall>i. 0 < i \<and> i < length (?css ! j) \<longrightarrow>
                          start_idx (?css ! j ! i) = int i * (chunk_size - overlap)
                          \<and> end_idx (?css ! j ! i) = ?n
                          \<and> word_count_chunk (?css ! j ! i) = ?n - int i * (chunk_size - overlap)
                          \<and> word_count_chunk (?css ! j ! i) < ?n"
      if ne: "words_of ?d \<noteq> []" and lt: "?n < chunk_size"
    proof (intro allI impI)
      fix i assume i: "0 < i \<and> i < length (?css ! j)"
      then have i1: "0 < i" and i2: "i < length (doc_chunks ?d (words_of ?d) chunk_size k'
           (map (\<lambda>j. int j * (chunk_size - overlap))
              [0..<range_len 0 ?n (chunk_size - overlap)]))"
        by (simp_all add: k' window_starts_def)
      note f = later_chunks_short [OF step cs ne lt i1 i2, folded window_starts_def, folded k']
      from f show "start_idx (?css ! j ! i) = int i * (chunk_size - overlap)
                          \<and> end_idx (?css ! j ! i) = ?n
                          \<and> word_count_chunk (?css ! j ! i) = ?n - int i * (chunk_size - overlap)
                          \<and> word_count_chunk (?css ! j ! i) < ?n"
        by blast
    qed
    show ?thesis using one whole number two later by blast
  qed
  show ?thesis
    by (rule exI [of _ ?css]) (use run len each in blast)
qed

theorem short_document_chunks_witness:
  "(0::int) \<le> 20 \<and> (20::int) < 100 \<and> (0::int) \<le> 10 \<and> (10::int) < 20
   \<and> preprocessed loaded_pipeline
   \<and> 0 < length (documents loaded_pipeline)
   \<and> words_of (documents loaded_pipeline ! 0) \<noteq> []
   \<and> int (length (words_of (documents loaded_pipeline ! 0))) = 15
   \<and> (\<exists>css. chunk_documents loaded_pipeline 100 20 = Inr (concat css)
         \<and> length (css ! 0) = 1
         \<and> start_idx (css ! 0 ! 0) = 0
         \<and> end_idx (css ! 0 ! 0) = 15)
   \<and> (\<exists>css. chunk_documents loaded_pipeline 20 10 = Inr (concat css)
         \<and> int (length (css ! 0)) = 2
         \<and> start_idx (css ! 0 ! 0) = 0
         \<and> end_idx (css ! 0 ! 0) = 15
         \<and> start_idx (css ! 0 ! 1) = 10 \<and> end_idx (css ! 0 ! 1) = 15
         \<and> word_count_chunk (css ! 0 ! 1) = 5)"
proof -
  have p: "preprocessed loaded_pipeline"
    unfolding loaded_pipeline_def by (rule preprocessed_preprocess_documents)
  have l: "0 < length (documents loaded_pipeline)"
    by (simp add: loaded_pipeline_def preprocess_documents_def load_documents_def sample_docs_def)
  have w: "words_of (documents loaded_pipeline ! 0) \<noteq> []"
    by code_simp
  have n: "int (length (words_of (documents loaded_pipeline ! 0))) = 15"
    by code_simp
  from short_document_chunks [of 20 100 loaded_pipeline, OF _ _ p]
  obtain css where run: "chunk_documents loaded_pipeline 100 20 = Inr (concat css)"
    and each: "\<forall>j<length (documents loaded_pipeline).
                 (words_of (documents loaded_pipeline ! j) \<noteq> []
                    \<and> int (length (words_of (documents loaded_pipeline ! j))) \<le> 100 - 20
                  \<longrightarrow> length (css ! j) = 1)
                 \<and> (words_of (documents loaded_pipeline ! j) \<noteq> []
                    \<and> int (length (words_of (documents loaded_pipeline ! j))) < 100
                  \<longrightarrow> css ! j \<noteq> []
                      \<and> start_idx (css ! j ! 0) = 0
                      \<and> end_idx (css ! j ! 0) = int (length (words_of (documents loaded_pipeline ! j)))
                      \<and> word_count_chunk (css ! j ! 0) = int (length (words_of (documents loaded_pipeline ! j)))
                      \<and> content_chunk (css ! j ! 0) = join_py '' '' (words_of (documents loaded_pipeline ! j)))
                 \<and> (words_of (documents loaded_pipeline ! j) \<noteq> []
                  \<longrightarrow> int (length (css ! j))
                        = (int (length (words_of (documents loaded_pipeline ! j))) - 1) div (100 - 20) + 1)
                 \<and> (words_of (documents loaded_pipeline ! j) \<noteq> []
                    \<and> 100 - 20 < int (length (words_of (documents loaded_pipeline ! j)))
                  \<longrightarrow> 2 \<le> length (css ! j))
                 \<and> (words_of (documents loaded_pipeline ! j) \<noteq> []
                    \<and> int (length (words_of (documents loaded_pipeline ! j))) < 100
                  \<longrightarrow> (\<forall>i. 0 < i \<and> i < length (css ! j) \<longrightarrow>
                          start_idx (css ! j ! i) = int i * (100 - 20)
                          \<and> end_idx (css ! j ! i) = int (length (words_of (documents loaded_pipeline ! j)))
                          \<and> word_count_chunk (css ! j ! i)
                              = int (length (words_of (documents loaded_pipeline ! j))) - int i * (100 - 20)
                          \<and> word_count_chunk (css ! j ! i) < int (length (words_of (documents loaded_pipeline ! j)))))"
    by auto
  from each l have "
                 (words_of (documents loaded_pipeline ! 0) \<noteq> []
                    \<and> int (length (words_of (documents loaded_pipeline ! 0))) \<le> 100 - 20
                  \<longrightarrow> length (css ! 0) = 1)
                 \<and> (words_of (documents loaded_pipeline ! 0) \<noteq> []
                    \<and> int (length (words_of (documents loaded_pipeline ! 0))) < 100
                  \<longrightarrow> css ! 0 \<noteq> []
                      \<and> start_idx (css ! 0 ! 0) = 0
                      \<and> end_idx (css ! 0 ! 0) = int (length (words_of (documents loaded_pipeline ! 0))))"
    by blast
  with w n have a: "length (css ! 0) = 1 \<and> start_idx (css ! 0 ! 0) = 0 \<and> end_idx (css ! 0 ! 0) = 15"
    by simp
  from short_document_chunks [of 10 20 loaded_pipeline, OF _ _ p]
  obtain css' where run': "chunk_documents loaded_pipeline 20 10 = Inr (concat css')"
    and each': "\<forall>j<length (documents loaded_pipeline).
                 (words_of (documents loaded_pipeline ! j) \<noteq> []
                    \<and> int (length (words_of (documents loaded_pipeline ! j))) \<le> 20 - 10
                  \<longrightarrow> length (css' ! j) = 1)
                 \<and> (words_of (documents loaded_pipeline ! j) \<noteq> []
                    \<and> int (length (words_of (documents loaded_pipeline ! j))) < 20
                  \<longrightarrow> css' ! j \<noteq> []
                      \<and> start_idx (css' ! j ! 0) = 0
                      \<and> end_idx (css' ! j ! 0) = int (length (words_of (documents loaded_pipeline ! j)))
                      \<and> word_count_chunk (css' ! j ! 0) = int (length (words_of (documents loaded_pipeline ! j)))
                      \<and> content_chunk (css' ! j ! 0) = join_py '' '' (words_of (documents loaded_pipeline ! j)))
                 \<and> (words_of (documents loaded_pipeline ! j) \<noteq> []
                  \<longrightarrow> int (length (css' ! j))
                        = (int (length (words_of (documents loaded_pipeline ! j))) - 1) div (20 - 10) + 1)
                 \<and> (words_of (documents loaded_pipeline ! j) \<noteq> []
                    \<and> 20 - 10 < int (length (words_of (documents loaded_pipeline ! j)))
                  \<longrightarrow> 2 \<le> length (css' ! j))
                 \<and> (words_of (documents loaded_pipeline ! j) \<noteq> []
                    \<and> int (length (words_of (documents loaded_pipeline ! j))) < 20
                  \<longrightarrow> (\<forall>i. 0 < i \<and> i < length (css' ! j) \<longrightarrow>
                          start_idx (css' ! j ! i) = int i * (20 - 10)
                          \<and> end_idx (css' ! j ! i) = int (length (words_of (documents loaded_pipeline ! j)))
                          \<and> word_count_chunk (css' ! j ! i)
                              = int (length (words_of (documents loaded_pipeline ! j))) - int i * (20 - 10)
                          \<and> word_count_chunk (css' ! j ! i) < int (length (words_of (documents loaded_pipeline ! j)))))"
    by auto
  from each' l have "
                 (words_of (documents loaded_pipeline ! 0) \<noteq> []
                    \<and> int (length (words_of (documents loaded_pipeline ! 0))) < 20
                  \<longrightarrow> start_idx (css' ! 0 ! 0) = 0
                      \<and> end_idx (css' ! 0 ! 0) = int (length (words_of (documents loaded_pipeline ! 0))))
                 \<and> (words_of (documents loaded_pipeline ! 0) \<noteq> []
                  \<longrightarrow> int (length (css' ! 0))
                        = (int (length (words_of (documents loaded_pipeline ! 0))) - 1) div (20 - 10) + 1)
                 \<and> (words_of (documents loaded_pipeline ! 0) \<noteq> []
                    \<and> int (length (words_of (documents loaded_pipeline ! 0))) < 20
                  \<longrightarrow> (0 < (1::nat) \<and> 1 < length (css' ! 0) \<longrightarrow>
                          start_idx (css' ! 0 ! 1) = int 1 * (20 - 10)
                          \<and> end_idx (css' ! 0 ! 1) = int (length (words_of (documents loaded_pipeline ! 0)))
                          \<and> word_count_chunk (css' ! 0 ! 1)
                              = int (length (words_of (documents loaded_pipeline ! 0))) - int 1 * (20 - 10)))"
    by blast
  with w n have b0: "int (length (css' ! 0)) = 2 \<and> start_idx (css' ! 0 ! 0) = 0
        \<and> end_idx (css' ! 0 ! 0) = 15
        \<and> (0 < (1::nat) \<and> 1 < length (css' ! 0) \<longrightarrow>
               start_idx (css' ! 0 ! 1) = 10 \<and> end_idx (css' ! 0 ! 1) = 15
               \<and> word_count_chunk (css' ! 0 ! 1) = 5)"
    by simp
  then have "1 < length (css' ! 0)" by linarith
  with b0 have b: "int (length (css' ! 0)) = 2 \<and> start_idx (css' ! 0 ! 0) = 0
        \<and> end_idx (css' ! 0 ! 0) = 15
        \<and> start_idx (css' ! 0 ! 1) = 10 \<and> end_idx (css' ! 0 ! 1) = 15
        \<and> word_count_chunk (css' ! 0 ! 1) = 5"
    by simp
  have A: "\<exists>css. chunk_documents loaded_pipeline 100 20 = Inr (concat css)
         \<and> length (css ! 0) = 1
         \<and> start_idx (css ! 0 ! 0) = 0
         \<and> end_idx (css ! 0 ! 0) = 15"
    using run a by blast
  have B: "\<exists>css. chunk_documents loaded_pipeline 20 10 = Inr (concat css)
         \<and> int (length (css ! 0)) = 2
         \<and> start_idx (css ! 0 ! 0) = 0
         \<and> end_idx (css ! 0 ! 0) = 15
         \<and> start_idx (css ! 0 ! 1) = 10 \<and> end_idx (css ! 0 ! 1) = 15
         \<and> word_count_chunk (css ! 0 ! 1) = 5"
    using run' b by blast
  show ?thesis using p l w n A B by simp
qed

text \<open>
  A document shorter than \<open>chunk_size\<close> but longer than the step yields more than one
  chunk: the sample documents (15, 15, 13 and 19 words) chunked with
  \<open>chunk_size = 20\<close> and \<open>overlap = 10\<close> yield two chunks each.
\<close>

theorem single_chunk_counterexample:
  "map_sum id (map chunk_span) (chunk_documents loaded_pipeline 20 10)
     = Inr [(''doc_1'', 0, 15, 15), (''doc_1'', 10, 15, 5),
            (''doc_2'', 0, 15, 15), (''doc_2'', 10, 15, 5),
            (''doc_3'', 0, 13, 13), (''doc_3'', 10, 13, 3),
            (''doc_4'', 0, 19, 19), (''doc_4'', 10, 19, 9)]"
  by code_simp

section \<open>Properties of the vector database and the search\<close>

subsection \<open>Embeddings and the build\<close>

lemma rand_length: "length (fst (rand n w)) = n"
  by (simp add: rand_def)

lemma length_normalized: "length (normalized m v) = length v"
  by (simp add: normalized_def)

lemma extent_matrix_of: "extent (matrix_of d rows) = d"
  by (simp add: extent.rep_eq matrix_of.rep_eq)

lemma matrix_rows_matrix_of:
  "list_all (\<lambda>r. length r = d) rows \<Longrightarrow> matrix_rows (matrix_of d rows) = rows"
  by (simp add: matrix_rows.rep_eq matrix_of.rep_eq list_all_iff)

lemma matrix_rows_extent: "list_all (\<lambda>r. length r = extent mx) (matrix_rows mx)"
  by transfer auto

lemma build_vector_database_Array2:
  "build_vector_database p chunks (Array2 mx) w
     = (Inr (p\<lparr>vector_db := Some
               \<lparr>chunks_db = chunks, embeddings_db = mx,
                index_metadata =
                  \<lparr>total_chunks = length chunks, embedding_dim = extent mx,
                   model_name = embedding_model p, created_at = clock_src w 0\<rparr>\<rparr>\<rparr>),
        snd (time_py w))"
  by (simp add: build_vector_database_def time_py_def)

lemma embedding_loop_rows:
  "\<exists>rows. fst (embedding_loop m chunks embs w) = embs @ rows
      \<and> length rows = length chunks \<and> list_all (\<lambda>r. length r = 384) rows"
proof (induction chunks arbitrary: embs w)
  case Nil
  then show ?case by simp
next
  case (Cons c cs)
  obtain u w' where r: "rand 384 w = (u, w')" by (cases "rand 384 w")
  let ?v = "normalized m (map Num u)"
  from r have u: "length ?v = 384"
    using rand_length [of 384 w] by (simp add: length_normalized)
  from Cons.IH [of "embs @ [?v]" w']
  obtain rows where rows: "fst (embedding_loop m cs (embs @ [?v]) w') = (embs @ [?v]) @ rows"
    "length rows = length cs" "list_all (\<lambda>r. length r = 384) rows" by blast
  show ?case
    by (rule exI [of _ "?v # rows"]) (simp add: r rows u)
qed

lemma np_array_rows:
  "rows \<noteq> [] \<Longrightarrow> list_all (\<lambda>r. length r = d) rows
     \<Longrightarrow> np_array rows = Inr (Array2 (matrix_of d rows))"
  by (cases rows) (auto simp: list_all_iff)

lemma generate_embeddings_shape:
  "\<exists>rows w'. generate_embeddings m chunks w
       = (Inr (if chunks = [] then Array1 [] else Array2 (matrix_of 384 rows)), w')
      \<and> length rows = length chunks \<and> list_all (\<lambda>r. length r = 384) rows"
proof -
  from embedding_loop_rows [of m chunks "[]" w]
  obtain rows where rows: "fst (embedding_loop m chunks [] w) = rows"
    "length rows = length chunks" "list_all (\<lambda>r. length r = 384) rows" by auto
  obtain w' where l: "embedding_loop m chunks [] w = (rows, w')"
    using rows(1) by (cases "embedding_loop m chunks [] w") simp
  show ?thesis
  proof (cases "chunks = []")
    case True
    with rows l show ?thesis by (simp add: generate_embeddings_def)
  next
    case False
    with rows(2) have "rows \<noteq> []" by auto
    from np_array_rows [OF this rows(3)] False l
    have "generate_embeddings m chunks w
        = (Inr (if chunks = [] then Array1 [] else Array2 (matrix_of 384 rows)), w')"
      by (simp add: generate_embeddings_def)
    with rows(2,3) show ?thesis by blast
  qed
qed

lemma build_vector_database_Array1:
  "build_vector_database p chunks (Array1 xs) w = (Inl (IndexError ''tuple index out of range''), w)"
  by (simp add: build_vector_database_def)

subsection \<open>The loops of the search\<close>

lemma similarity_loop_positions:
  "similarity_loop m q rows i acc = Inr sims \<Longrightarrow>
     map fst sims = map fst acc @ [i..<i + length rows]
     \<and> length sims = length acc + length rows"
proof (induction rows arbitrary: i acc)
  case Nil
  then show ?case by simp
next
  case (Cons r rs)
  from Cons.prems obtain s where s: "np_dot m q r = Inr s"
    and rest: "similarity_loop m q rs (Suc i) (acc @ [(i, s)]) = Inr sims"
    by (auto split: sum.splits)
  from Cons.IH [OF rest] show ?case by (simp add: upt_conv_Cons del: upt_Suc)
qed

lemma similarity_loop_scores:
  "similarity_loop m q rows i acc = Inr sims \<Longrightarrow>
     (\<forall>(j, s)\<in>set acc. P j s) \<Longrightarrow>
     (\<And>j. j < length rows \<Longrightarrow> length (rows ! j) = length q
         \<Longrightarrow> P (i + j) (dot_op m q (rows ! j))) \<Longrightarrow>
     (\<forall>(j, s)\<in>set sims. P j s)"
proof (induction rows arbitrary: i acc)
  case Nil
  then show ?case by simp
next
  case (Cons r rs)
  from Cons.prems(1) obtain s where s: "np_dot m q r = Inr s"
    and rest: "similarity_loop m q rs (Suc i) (acc @ [(i, s)]) = Inr sims"
    by (auto split: sum.splits)
  from s have sv: "s = dot_op m q r" and len: "length r = length q"
    by (auto simp: np_dot_def split: if_splits)
  have a: "\<forall>(j, s)\<in>set (acc @ [(i, s)]). P j s"
    using Cons.prems(2) Cons.prems(3) [of 0] sv len by auto
  have b: "P (Suc i + j) (dot_op m q (rs ! j))"
    if "j < length rs" "length (rs ! j) = length q" for j
    using Cons.prems(3) [of "Suc j"] that by simp
  from Cons.IH [OF rest a b] show ?case by blast
qed

lemma similarity_loop_total:
  "list_all (\<lambda>r. length r = length q) rows \<Longrightarrow> \<exists>sims. similarity_loop m q rows i acc = Inr sims"
  by (induction rows arbitrary: i acc) (simp_all add: np_dot_def)

subsection \<open>The order of the floats\<close>

lemma key64_less: "a \<noteq> Nan \<Longrightarrow> b \<noteq> Nan \<Longrightarrow> key64 a < key64 b \<longleftrightarrow> lt64 a b"
  by (cases a; cases b) simp_all

lemma key64_eq: "key64 a = key64 b \<longleftrightarrow> a = b"
  by (cases a; cases b) simp_all

lemma sorted_wrt_tie_break:
  fixes key :: "'a \<Rightarrow> 'k::linorder"
  assumes "sorted_wrt (\<lambda>a b. key b \<le> key a) zs"
    and "\<And>k. sorted_wrt R (filter (\<lambda>y. key y = k) zs)"
  shows "sorted_wrt (\<lambda>a b. key b < key a \<or> (key a = key b \<and> R a b)) zs"
  using assms
proof (induction zs)
  case Nil
  then show ?case by simp
next
  case (Cons z zs)
  have tail: "sorted_wrt R (filter (\<lambda>y. key y = k) zs)" for k
    using Cons.prems(2) [of k] by (simp split: if_splits)
  have head: "key b < key z \<or> (key z = key b \<and> R z b)" if b: "b \<in> set zs" for b
  proof (cases "key b = key z")
    case True
    with Cons.prems(2) [of "key z"] b show ?thesis by auto
  next
    case False
    with Cons.prems(1) b show ?thesis by (auto simp: less_le)
  qed
  from Cons.IH tail Cons.prems(1) head show ?case by simp
qed

lemma sort_reverse_ranked:
  assumes pos: "sorted_wrt (\<lambda>a b. fst a < fst b) xs"
    and nonan: "\<forall>x\<in>set xs. snd x \<noteq> Nan"
  shows "sorted_wrt ranked_before (sort_reverse m xs)"
proof -
  let ?k = "\<lambda>x :: nat \<times> float64. key64 (snd x)"
  let ?ys = "sort_key ?k (rev xs)"
  have branch: "sort_reverse m xs = rev ?ys"
    using nonan by (simp add: sort_reverse_def list_ex_iff)
  have "sorted (map ?k ?ys)" by (rule sorted_sort_key)
  then have "sorted_wrt (\<lambda>a b. ?k a \<le> ?k b) ?ys" by (simp add: sorted_map)
  then have desc: "sorted_wrt (\<lambda>a b. ?k b \<le> ?k a) (rev ?ys)"
    by (simp add: sorted_wrt_rev)
  have ties: "sorted_wrt (\<lambda>a b. fst a < fst b) (filter (\<lambda>y. ?k y = k) (rev ?ys))" for k
  proof -
    have "filter (\<lambda>y. ?k y = k) (rev ?ys) = rev (filter (\<lambda>y. ?k y = k) ?ys)"
      by (simp add: rev_filter)
    also have "\<dots> = rev (filter (\<lambda>y. ?k y = k) (rev xs))"
      by (simp only: sort_key_stable)
    also have "\<dots> = filter (\<lambda>y. ?k y = k) xs"
      by (simp add: rev_filter)
    finally show ?thesis using pos by (simp add: sorted_wrt_filter)
  qed
  from sorted_wrt_tie_break [of ?k "rev ?ys" "\<lambda>a b. fst a < fst b", OF desc ties]
  have s: "sorted_wrt (\<lambda>a b. ?k b < ?k a \<or> (?k a = ?k b \<and> fst a < fst b)) (rev ?ys)" .
  have in_xs: "set (rev ?ys) = set xs" by simp
  have "sorted_wrt ranked_before (rev ?ys)"
  proof (rule sorted_wrt_mono_rel [OF _ s])
    fix a b assume a: "a \<in> set (rev ?ys)" and b: "b \<in> set (rev ?ys)"
      and r: "?k b < ?k a \<or> (?k a = ?k b \<and> fst a < fst b)"
    from a b in_xs nonan have na: "snd a \<noteq> Nan" and nb: "snd b \<noteq> Nan" by auto
    from r show "ranked_before a b"
      by (auto simp: ranked_before_def key64_less [OF nb na] key64_eq)
  qed
  then show ?thesis by (simp only: branch)
qed

lemma set_sort_reverse:
  "\<forall>x\<in>set xs. snd x \<noteq> Nan \<Longrightarrow> set (sort_reverse m xs) = set xs"
  by (simp add: sort_reverse_def list_ex_iff)

lemma length_sort_reverse:
  "\<forall>x\<in>set xs. snd x \<noteq> Nan \<Longrightarrow> length (sort_reverse m xs) = length xs"
  by (simp add: sort_reverse_def list_ex_iff)

lemma slice_py_take: "slice_py xs 0 k = take (slice_bound (length xs) k) xs"
  by (simp add: slice_py_def Let_def) (simp add: slice_bound_def)

lemma sorted_positions:
  "map fst xs = [i..<j] \<Longrightarrow> sorted_wrt (\<lambda>a b. fst a < fst b) (xs :: (nat \<times> float64) list)"
proof -
  assume m: "map fst xs = [i..<j]"
  have "sorted_wrt (<) (map fst xs)" unfolding m by simp
  then show ?thesis by (simp add: sorted_wrt_map)
qed


lemma make_result_simps:
  "similarity_score (make_result c s r) = s" "rank (make_result c s r) = r"
  "chunk.truncate (make_result c s r) = c" "chunk_id (make_result c s r) = chunk_id c"
  by (simp_all add: make_result_def chunk.defs search_result.defs)

lemma result_loop_props:
  "result_loop chunks tops acc = Inr rs \<Longrightarrow>
     \<exists>new. rs = acc @ new
       \<and> map similarity_score new = map snd tops
       \<and> map chunk.truncate new = map (\<lambda>(i, s). chunks ! i) tops
       \<and> map rank new = [Suc (length acc)..<Suc (length acc + length tops)]"
proof (induction tops arbitrary: acc)
  case Nil
  then show ?case by simp
next
  case (Cons t ts)
  obtain i s where t: "t = (i, s)" by (cases t)
  from Cons.prems t have i: "i < length chunks"
    and rest: "result_loop chunks ts (acc @ [make_result (chunks ! i) s (length acc + 1)]) = Inr rs"
    by (auto split: if_splits)
  from Cons.IH [OF rest] obtain new
    where new: "rs = (acc @ [make_result (chunks ! i) s (length acc + 1)]) @ new"
      "map similarity_score new = map snd ts"
      "map chunk.truncate new = map (\<lambda>(i, s). chunks ! i) ts"
      "map rank new = [Suc (Suc (length acc))..<Suc (Suc (length acc) + length ts)]"
    by auto
  show ?case
    by (rule exI [of _ "make_result (chunks ! i) s (length acc + 1) # new"])
       (simp add: new t make_result_simps upt_conv_Cons del: upt_Suc)
qed

lemma top_chunks_props:
  assumes "top_chunks m q rows top_k = Inr tops"
    and "\<forall>row\<in>set rows. dot_op m q row \<noteq> Nan"
  shows "sorted_wrt ranked_before tops"
    and "\<forall>(i, s)\<in>set tops. i < length rows \<and> s = dot_op m q (rows ! i)"
    and "length tops = slice_bound (length rows) top_k"
proof -
  from assms(1) obtain sims where sims: "similarity_loop m q rows 0 [] = Inr sims"
    and tops: "tops = slice_py (sort_reverse m sims) 0 top_k"
    by (auto simp: top_chunks_def split: sum.splits)
  from similarity_loop_positions [OF sims]
  have pos: "map fst sims = [0..<length rows]" and len: "length sims = length rows" by simp_all
  have sc: "\<forall>(i, s)\<in>set sims. i < length rows \<and> s = dot_op m q (rows ! i)"
    by (rule similarity_loop_scores [OF sims]) simp_all
  with assms(2) have nonan: "\<forall>x\<in>set sims. snd x \<noteq> Nan" by fastforce
  have "sorted_wrt ranked_before (sort_reverse m sims)"
    by (rule sort_reverse_ranked [OF sorted_positions [OF pos] nonan])
  then show "sorted_wrt ranked_before tops"
    unfolding tops slice_py_take by (rule sorted_wrt_take)
  have "set tops \<subseteq> set sims"
    unfolding tops slice_py_take using set_take_subset [of _ "sort_reverse m sims"]
    by (simp add: set_sort_reverse [OF nonan])
  with sc show "\<forall>(i, s)\<in>set tops. i < length rows \<and> s = dot_op m q (rows ! i)" by blast
  show "length tops = slice_bound (length rows) top_k"
    unfolding tops slice_py_take
    by (simp add: length_sort_reverse [OF nonan] len slice_bound_def)
qed

lemma similarity_search_Some:
  "vector_db p = Some db \<Longrightarrow>
     similarity_search m p qtext top_k w
       = (case top_chunks m (query_vector m w) (matrix_rows (embeddings_db db)) top_k of
            Inl e \<Rightarrow> Inl e
          | Inr tops \<Rightarrow> result_loop (chunks_db db) tops [], snd (rand 384 w))"
  by (cases "rand 384 w")
     (simp add: similarity_search_def query_vector_def Let_def split: sum.splits)

lemma result_loop_total:
  "\<forall>(i, s)\<in>set tops. i < length chunks \<Longrightarrow> \<exists>rs. result_loop chunks tops acc = Inr rs"
  by (induction tops arbitrary: acc) auto

lemma top_chunks_total:
  "list_all (\<lambda>r. length r = length q) rows \<Longrightarrow> \<exists>tops. top_chunks m q rows top_k = Inr tops"
  using similarity_loop_total [of q rows m 0 "[]"] by (auto simp: top_chunks_def)

lemma similarity_search_returns:
  assumes "vector_db p = Some db"
    and "extent (embeddings_db db) = 384"
    and "length (matrix_rows (embeddings_db db)) \<le> length (chunks_db db)"
    and "\<forall>row\<in>set (matrix_rows (embeddings_db db)). dot_op m (query_vector m w) row \<noteq> Nan"
  shows "\<exists>rs. similarity_search m p qtext top_k w = (Inr rs, snd (rand 384 w))
           \<and> length rs = slice_bound (length (matrix_rows (embeddings_db db))) top_k"
proof -
  let ?q = "query_vector m w"
  have "length ?q = 384" by (simp add: query_vector_def length_normalized rand_length)
  with assms(2) matrix_rows_extent [of "embeddings_db db"]
  have "list_all (\<lambda>r. length r = length ?q) (matrix_rows (embeddings_db db))" by simp
  from top_chunks_total [OF this] obtain tops
    where tops: "top_chunks m ?q (matrix_rows (embeddings_db db)) top_k = Inr tops" by blast
  note tp = top_chunks_props [OF tops assms(4)]
  from tp(2) assms(3) have "\<forall>(i, s)\<in>set tops. i < length (chunks_db db)" by auto
  from result_loop_total [OF this] obtain rs
    where rs: "result_loop (chunks_db db) tops [] = Inr rs" by blast
  from result_loop_props [OF rs] have "length (map similarity_score rs) = length (map snd tops)"
    by auto
  then have "length rs = length tops" by simp
  with tops rs tp(3) assms(1) show ?thesis by (simp add: similarity_search_Some)
qed

subsection \<open>Runs of the search\<close>

lemma vector_db_loaded_pipeline: "vector_db loaded_pipeline = None"
  by (simp add: loaded_pipeline_def preprocess_documents_def load_documents_def
        RAGPipeline_init_def)

lemma sample_chunk_ids:
  "map chunk_id sample_chunks = [''chunk_0'', ''chunk_1'', ''chunk_2'', ''chunk_3'']"
  by code_simp

lemma sample_chunks_nth:
  "chunk_id (sample_chunks ! 0) = ''chunk_0''" "chunk_id (sample_chunks ! Suc 0) = ''chunk_1''"
  "chunk_id (sample_chunks ! 2) = ''chunk_2''" "chunk_id (sample_chunks ! 3) = ''chunk_3''"
  "length sample_chunks = 4"
proof -
  have len: "length sample_chunks = 4"
    using arg_cong [OF sample_chunk_ids, of length] by simp
  then show "length sample_chunks = 4" .
  have n: "chunk_id (sample_chunks ! i) = map chunk_id sample_chunks ! i" if "i < 4" for i
    using that len by simp
  show "chunk_id (sample_chunks ! 0) = ''chunk_0''" "chunk_id (sample_chunks ! Suc 0) = ''chunk_1''"
    "chunk_id (sample_chunks ! 2) = ''chunk_2''" "chunk_id (sample_chunks ! 3) = ''chunk_3''"
    by (simp_all add: n sample_chunk_ids)
qed

lemma indexed_pipeline_db:
  "vector_db (indexed_pipeline rows)
       = Some \<lparr>chunks_db = sample_chunks, embeddings_db = matrix_of 384 rows,
               index_metadata =
                 \<lparr>total_chunks = length sample_chunks, embedding_dim = 384,
                  model_name = embedding_model loaded_pipeline,
                  created_at = clock_src steady_world 0\<rparr>\<rparr>"
  by (simp add: indexed_pipeline_def build_vector_database_Array2 extent_matrix_of)

lemma constant_rows:
  "matrix_rows (matrix_of 384 [replicate 384 a, replicate 384 b, replicate 384 c, replicate 384 d])
     = [replicate 384 a, replicate 384 b, replicate 384 c, replicate 384 d]"
  by (simp add: matrix_rows_matrix_of)

lemma exact_machine_simps:
  "norm_op exact_machine = exact_norm" "divide_op exact_machine = div64"
  "dot_op exact_machine = exact_dot" "sort_nan_op exact_machine = cpython_sort_reverse"
  by (simp_all add: exact_machine_def)

lemma map_upt_const: "(\<And>k. a \<le> k \<Longrightarrow> f k = c) \<Longrightarrow> map f [a..<a + n] = replicate n c"
  by (induction n) (simp_all add: replicate_append_same)

lemma rand_unit_world: "fst (rand 384 unit_world) = 3 / 5 # 4 / 5 # replicate 382 0"
proof -
  have u: "[0..<384] = 0 # 1 # [2..<2 + 382]" by (simp add: upt_conv_Cons del: upt_Suc)
  have z: "map (uniform_src unit_world) [2..<2 + 382] = replicate 382 0"
    by (rule map_upt_const) (simp add: unit_world_def)
  have h: "uniform_src unit_world 0 = 3 / 5" "uniform_src unit_world 1 = 4 / 5"
    by (simp_all add: unit_world_def)
  show ?thesis unfolding rand_def fst_conv u list.map z h ..
qed

lemma foldl_add64_zeros: "foldl add64 (Num a) (replicate n (Num 0)) = Num a"
  by (induction n) simp_all

lemma foldl_add64_Nan: "foldl add64 Nan xs = Nan"
  by (induction xs) simp_all

lemma replicate_384: "replicate 384 x = x # x # replicate 382 x"
proof -
  have "(384 :: nat) = Suc (Suc 382)" by simp
  then show ?thesis by (simp only: replicate_Suc)
qed

lemma query_vector_unit_world:
  "query_vector exact_machine unit_world = Num (3 / 5) # Num (4 / 5) # replicate 382 (Num 0)"
proof -
  have "exact_norm (Num (3 / 5) # Num (4 / 5) # replicate 382 (Num 0)) = Num 1"
    by (simp add: exact_norm_def foldl_add64_zeros)
  then show ?thesis
    by (simp add: query_vector_def normalized_def rand_unit_world exact_machine_simps)
qed

lemma exact_dot_constant_row:
  "exact_dot (Num (3 / 5) # Num (4 / 5) # replicate 382 (Num 0)) (replicate 384 (Num c))
     = Num (7 * c / 5)"
  by (simp add: exact_dot_def replicate_384 zip_replicate foldl_add64_zeros)

lemma exact_dot_nan_row:
  "exact_dot (Num (3 / 5) # Num (4 / 5) # replicate 382 (Num 0)) (replicate 384 Nan) = Nan"
  by (simp add: exact_dot_def replicate_384 foldl_add64_Nan)

lemma np_dot_constant_row:
  "np_dot exact_machine (query_vector exact_machine unit_world) (replicate 384 (Num c))
     = Inr (Num (7 * c / 5))"
  by (simp add: np_dot_def query_vector_unit_world exact_dot_constant_row exact_machine_simps)

lemma np_dot_nan_row:
  "np_dot exact_machine (query_vector exact_machine unit_world) (replicate 384 Nan) = Inr Nan"
  by (simp add: np_dot_def query_vector_unit_world exact_dot_nan_row exact_machine_simps)

lemma top_chunks_tied_rows:
  "top_chunks exact_machine (query_vector exact_machine unit_world)
      [replicate 384 (Num 1), replicate 384 (Num 2), replicate 384 (Num 2), replicate 384 (Num 0)] 3
     = Inr [(1, Num (14 / 5)), (2, Num (14 / 5)), (0, Num (7 / 5))]"
  by (simp add: top_chunks_def np_dot_constant_row sort_reverse_def slice_py_def slice_bound_def)

lemma top_chunks_nan_row:
  "top_chunks exact_machine (query_vector exact_machine unit_world)
      [replicate 384 (Num 1), replicate 384 Nan, replicate 384 (Num 2), replicate 384 (Num 0)] 3
     = Inr [(0, Num (7 / 5)), (1, Nan), (2, Num (14 / 5))]"
  by (simp add: top_chunks_def np_dot_constant_row np_dot_nan_row sort_reverse_def
        exact_machine_simps cpython_sort_reverse_def insert_pivot_def slice_py_def slice_bound_def)


subsection \<open>Ranking\<close>

text \<open>
  Claim C2, for scores that are numbers.  Let the pipeline hold an index and let no
  score, that is no dot product of the query vector with a stored row, be
  not-a-number.  Whenever \<^verbatim>\<open>similarity_search\<close> returns results, they come from
  the list \<open>tops\<close> of positions and scores that lines 149 to 157 compute: every
  entry of \<open>tops\<close> is a row position with the dot product of the query vector and
  that row, \<open>tops\<close> has as many entries as the slice \<^verbatim>\<open>[:top_k]\<close> keeps of the
  rows, it is ordered by descending score, and of two entries with equal scores the
  one with the lower position comes first.  The results carry these scores in this
  order, the chunks at these positions, and the ranks 1, 2, ...  The query vector is
  the normalised draw from the random source.  This holds on every machine, whatever
  its rounding, and all of it is a function of the machine, the index, the draw and
  \<open>top_k\<close>, so equal inputs give equal outputs.
\<close>

theorem search_ranking:
  assumes "vector_db p = Some db"
    and "similarity_search m p qtext top_k w = (Inr rs, w')"
    and "\<forall>row\<in>set (matrix_rows (embeddings_db db)). dot_op m (query_vector m w) row \<noteq> Nan"
  shows "\<exists>tops. top_chunks m (query_vector m w) (matrix_rows (embeddings_db db)) top_k = Inr tops
           \<and> sorted_wrt ranked_before tops
           \<and> (\<forall>(i, s)\<in>set tops. i < length (matrix_rows (embeddings_db db))
                  \<and> s = dot_op m (query_vector m w) (matrix_rows (embeddings_db db) ! i))
           \<and> length tops = slice_bound (length (matrix_rows (embeddings_db db))) top_k
           \<and> map similarity_score rs = map snd tops
           \<and> map chunk.truncate rs = map (\<lambda>(i, s). chunks_db db ! i) tops
           \<and> map rank rs = [1..<Suc (length tops)]
           \<and> sorted_wrt (\<lambda>a b. lt64 (similarity_score b) (similarity_score a)
                                \<or> similarity_score a = similarity_score b) rs"
proof -
  let ?q = "query_vector m w"
  from assms(1,2) obtain tops where tops: "top_chunks m ?q (matrix_rows (embeddings_db db)) top_k = Inr tops"
    and res: "result_loop (chunks_db db) tops [] = Inr rs"
    by (auto simp: similarity_search_Some split: sum.splits)
  note tp = top_chunks_props [OF tops assms(3)]
  from result_loop_props [OF res]
  have sc: "map similarity_score rs = map snd tops"
    and ch: "map chunk.truncate rs = map (\<lambda>(i, s). chunks_db db ! i) tops"
    and rk: "map rank rs = [1..<Suc (length tops)]" by auto
  have "sorted_wrt (\<lambda>a b. lt64 (snd b) (snd a) \<or> snd a = snd b) tops"
    by (rule sorted_wrt_mono_rel [OF _ tp(1)]) (auto simp: ranked_before_def)
  then have "sorted_wrt (\<lambda>a b. lt64 b a \<or> a = b) (map snd tops)" by (simp add: sorted_wrt_map)
  then have "sorted_wrt (\<lambda>a b. lt64 b a \<or> a = b) (map similarity_score rs)" by (simp only: sc)
  then have desc: "sorted_wrt (\<lambda>a b. lt64 (similarity_score b) (similarity_score a)
                                \<or> similarity_score a = similarity_score b) rs"
    by (simp add: sorted_wrt_map)
  from tops tp sc ch rk desc show ?thesis by blast
qed

text \<open>
  A run on the machine without rounding.  The query vector is \<open>(3/5, 4/5, 0, ...)\<close>
  and the four rows of the index are constant: 1, 2, 2 and 0.  Their scores are
  \<open>7/5\<close>, \<open>14/5\<close>, \<open>14/5\<close> and 0; the search with \<open>top_k = 3\<close> returns the two
  rows with the equal score first, position 1 before position 2, and then
  position 0.
\<close>

theorem search_ranking_witness:
  "\<exists>db rs w'.
     vector_db (indexed_pipeline [replicate 384 (Num 1), replicate 384 (Num 2),
                                  replicate 384 (Num 2), replicate 384 (Num 0)]) = Some db
     \<and> similarity_search exact_machine
         (indexed_pipeline [replicate 384 (Num 1), replicate 384 (Num 2),
                            replicate 384 (Num 2), replicate 384 (Num 0)])
         ''What is RAG and how does it work with vector databases?'' 3 unit_world = (Inr rs, w')
     \<and> map (dot_op exact_machine (query_vector exact_machine unit_world)) (matrix_rows (embeddings_db db))
         = [Num (7 / 5), Num (14 / 5), Num (14 / 5), Num 0]
     \<and> top_chunks exact_machine (query_vector exact_machine unit_world) (matrix_rows (embeddings_db db)) 3
         = Inr [(1, Num (14 / 5)), (2, Num (14 / 5)), (0, Num (7 / 5))]
     \<and> map result_view rs
         = [(''chunk_1'', 1, Num (14 / 5)), (''chunk_2'', 2, Num (14 / 5)),
            (''chunk_0'', 3, Num (7 / 5))]
     \<and> sorted_wrt (\<lambda>a b. lt64 (similarity_score b) (similarity_score a)
                          \<or> similarity_score a = similarity_score b) rs"
proof -
  let ?rows = "[replicate 384 (Num 1), replicate 384 (Num 2),
                replicate 384 (Num 2), replicate 384 (Num 0 :: float64)]"
  let ?db = "\<lparr>chunks_db = sample_chunks, embeddings_db = matrix_of 384 ?rows,
              index_metadata =
                \<lparr>total_chunks = length sample_chunks, embedding_dim = 384,
                 model_name = embedding_model loaded_pipeline,
                 created_at = clock_src steady_world 0\<rparr>\<rparr>"
  let ?rs = "[make_result (sample_chunks ! 1) (Num (14 / 5)) 1,
              make_result (sample_chunks ! 2) (Num (14 / 5)) 2,
              make_result (sample_chunks ! 0) (Num (7 / 5)) 3]"
  let ?q = "''What is RAG and how does it work with vector databases?''"
  have db: "vector_db (indexed_pipeline ?rows) = Some ?db"
    by (rule indexed_pipeline_db)
  have tops: "top_chunks exact_machine (query_vector exact_machine unit_world)
        (matrix_rows (embeddings_db ?db)) 3 = Inr [(1, Num (14 / 5)), (2, Num (14 / 5)), (0, Num (7 / 5))]"
    using top_chunks_tied_rows by (simp add: constant_rows)
  have run: "similarity_search exact_machine (indexed_pipeline ?rows) ?q 3 unit_world
      = (Inr ?rs, snd (rand 384 unit_world))"
    unfolding similarity_search_Some [OF db] tops
    by (simp add: sample_chunks_nth numeral_2_eq_2 numeral_3_eq_3)
  have dots: "map (dot_op exact_machine (query_vector exact_machine unit_world)) (matrix_rows (embeddings_db ?db))
      = [Num (7 / 5), Num (14 / 5), Num (14 / 5), Num 0]"
    by (simp add: constant_rows query_vector_unit_world exact_dot_constant_row
          exact_machine_simps)
  have nonan: "\<forall>row\<in>set (matrix_rows (embeddings_db ?db)).
      dot_op exact_machine (query_vector exact_machine unit_world) row \<noteq> Nan"
    by (simp add: constant_rows query_vector_unit_world exact_dot_constant_row
          exact_machine_simps)
  have view: "map result_view ?rs
      = [(''chunk_1'', 1, Num (14 / 5)), (''chunk_2'', 2, Num (14 / 5)),
         (''chunk_0'', 3, Num (7 / 5))]"
    by (simp add: result_view_def make_result_simps sample_chunks_nth)
  from search_ranking [OF db run nonan]
  have desc: "sorted_wrt (\<lambda>a b. lt64 (similarity_score b) (similarity_score a)
                          \<or> similarity_score a = similarity_score b) ?rs"
    by (elim exE conjE)
  show ?thesis
    by (intro exI [of _ ?db] exI [of _ ?rs] exI [of _ "snd (rand 384 unit_world)"] conjI)
       (fact db run dots tops view desc)+
qed

text \<open>
  A stored row of not-a-numbers.  The rows are constant 1, not-a-number, 2 and 0, so
  the scores are \<open>7/5\<close>, not-a-number, \<open>14/5\<close> and 0.  No comparison with
  not-a-number holds, and the sort of CPython leaves this list as it is: the result
  ranks \<^verbatim>\<open>chunk_0\<close> with the score \<open>7/5\<close> before \<^verbatim>\<open>chunk_2\<close> with the greater
  score \<open>14/5\<close>, which is not a descending order.
\<close>

theorem nan_score_counterexample:
  "map_sum id (map result_view)
     (fst (similarity_search exact_machine
             (indexed_pipeline [replicate 384 (Num 1), replicate 384 Nan,
                                replicate 384 (Num 2), replicate 384 (Num 0)])
             ''What is RAG and how does it work with vector databases?'' 3 unit_world))
     = Inr [(''chunk_0'', 1, Num (7 / 5)), (''chunk_1'', 2, Nan), (''chunk_2'', 3, Num (14 / 5))]
   \<and> lt64 (Num (7 / 5)) (Num (14 / 5))"
proof -
  let ?rows = "[replicate 384 (Num 1), replicate 384 Nan,
                replicate 384 (Num 2), replicate 384 (Num 0 :: float64)]"
  have db: "vector_db (indexed_pipeline ?rows)
      = Some \<lparr>chunks_db = sample_chunks, embeddings_db = matrix_of 384 ?rows,
              index_metadata =
                \<lparr>total_chunks = length sample_chunks, embedding_dim = 384,
                 model_name = embedding_model loaded_pipeline,
                 created_at = clock_src steady_world 0\<rparr>\<rparr>"
    by (rule indexed_pipeline_db)
  show ?thesis
    unfolding similarity_search_Some [OF db]
    by (simp add: constant_rows top_chunks_nan_row result_view_def make_result_simps
          sample_chunks_nth)
qed

subsection \<open>Searching without an index\<close>

text \<open>
  Claim C4, as the code has it.  On a pipeline whose \<^verbatim>\<open>vector_db\<close> is still the
  empty dictionary, that is before \<^verbatim>\<open>build_vector_database\<close> has run,
  \<^verbatim>\<open>similarity_search\<close> fails for every query, every \<open>top_k\<close> and on every
  machine: after the query vector has been drawn, the lookup of the key
  \<^verbatim>\<open>"embeddings"\<close> raises Python's \<^verbatim>\<open>KeyError\<close>.  The code defines no error of
  its own.
\<close>

theorem search_before_build:
  assumes "vector_db p = None"
  shows "similarity_search m p qtext top_k w
           = (Inl (KeyError ''embeddings''), snd (rand 384 w))"
  using assms by (cases "rand 384 w") (simp add: similarity_search_def Let_def)

theorem search_before_build_witness:
  "vector_db loaded_pipeline = None
   \<and> similarity_search exact_machine loaded_pipeline
        ''What is RAG and how does it work with vector databases?'' 3 steady_world
       = (Inl (KeyError ''embeddings''), snd (rand 384 steady_world))"
  using search_before_build [OF vector_db_loaded_pipeline] vector_db_loaded_pipeline by simp

text \<open>
  The search on a new pipeline object: the error is \<^verbatim>\<open>KeyError('embeddings')\<close>,
  and no error of the name \<^verbatim>\<open>IndexNotBuilt\<close> exists in the code.
\<close>

theorem index_not_built_counterexample:
  "fst (similarity_search exact_machine RAGPipeline_init
          ''What is RAG and how does it work with vector databases?'' 3 steady_world)
     = Inl (KeyError ''embeddings'')"
  by (cases "rand 384 steady_world") (simp add: similarity_search_def RAGPipeline_init_def Let_def)

subsection \<open>The query text\<close>

text \<open>
  Claim C10.  The result of \<^verbatim>\<open>similarity_search\<close>, that is the retrieved chunks with
  their scores and ranks or the error, and the state of the random source
  afterwards, do not depend on the query string: two calls that differ only in the
  query text return the same, on every machine.
\<close>

theorem search_ignores_query:
  "similarity_search m p query1 top_k w = similarity_search m p query2 top_k w"
  by (simp add: similarity_search_def)

section \<open>Properties of the evaluation framework\<close>

subsection \<open>The evaluators and the loops of the aggregation\<close>

lemma unit_draws_shift: "unit_draws w \<Longrightarrow> unit_draws (w\<lparr>uniform_src := \<lambda>k. uniform_src w (k + n)\<rparr>)"
  by (simp add: unit_draws_def)

lemma uniform_bounds:
  assumes "unit_draws w" "low \<le> high"
  shows "low \<le> fst (uniform low high w)" "fst (uniform low high w) \<le> high"
    "unit_draws (snd (uniform low high w))"
proof -
  have u: "0 \<le> uniform_src w 0" "uniform_src w 0 < 1" using assms(1) by (simp_all add: unit_draws_def)
  have d: "0 \<le> high - low" using assms(2) by simp
  have "0 \<le> (high - low) * uniform_src w 0" using d u(1) by simp
  then show "low \<le> fst (uniform low high w)" by (simp add: uniform_def)
  have "(high - low) * uniform_src w 0 \<le> (high - low) * 1"
    using d u(2) by (intro mult_left_mono) simp_all
  then show "fst (uniform low high w) \<le> high" by (simp add: uniform_def)
  show "unit_draws (snd (uniform low high w))"
    using assms(1) by (simp add: uniform_def unit_draws_def)
qed

lemma relevance_loop_draws:
  "\<exists>new. fst (relevance_loop c acc w) = acc @ new \<and> length new = length c
     \<and> (unit_draws w \<longrightarrow> (\<forall>x\<in>set new. 0.6 \<le> x \<and> x \<le> 0.95))"
proof (induction c arbitrary: acc w)
  case Nil
  then show ?case by simp
next
  case (Cons ctx rest)
  obtain r w1 where u: "uniform 0.6 0.95 w = (r, w1)" by (cases "uniform 0.6 0.95 w")
  from Cons.IH [of "acc @ [r]" w1] obtain new
    where new: "fst (relevance_loop rest (acc @ [r]) w1) = (acc @ [r]) @ new"
      "length new = length rest"
      "unit_draws w1 \<longrightarrow> (\<forall>x\<in>set new. 0.6 \<le> x \<and> x \<le> 0.95)" by blast
  have b: "0.6 \<le> r \<and> r \<le> 0.95 \<and> unit_draws w1" if "unit_draws w"
    using uniform_bounds [OF that, of "0.6" "0.95"] u by simp
  show ?case
    by (rule exI [of _ "r # new"]) (use new b u in auto)
qed

lemma sum_list_bounds:
  fixes xs :: "real list"
  assumes "\<forall>x\<in>set xs. a \<le> x \<and> x \<le> b"
  shows "a * real (length xs) \<le> sum_list xs" "sum_list xs \<le> b * real (length xs)"
  using assms by (induction xs) (auto simp: algebra_simps)

lemma average_bounds:
  assumes "xs \<noteq> []" "\<forall>x\<in>set xs. a \<le> x \<and> x \<le> b"
  shows "a \<le> average xs" "average xs \<le> b"
proof -
  have n: "0 < real (length xs)" using assms(1) by simp
  from sum_list_bounds [OF assms(2)] n
  show "a \<le> average xs" "average xs \<le> b"
    by (simp_all add: average_def pos_le_divide_eq pos_divide_le_eq)
qed

lemma float_values_map_Fl: "float_values (map Fl vs) = Some vs"
  by (induction vs) simp_all

lemma np_mean_Fl: "vs \<noteq> [] \<Longrightarrow> np_mean (map Fl vs) = Fl (average vs)"
  by (simp add: np_mean_def float_values_map_Fl)

lemma np_mean_Nil: "np_mean [] = NaN"
  by (simp add: np_mean_def)

lemma RetrievalAccuracy_result:
  "\<exists>res w'. RetrievalAccuracyEvaluator_evaluate q r c g w = (Inr res, w')
      \<and> (c = [] \<longrightarrow> score res = NaN)
      \<and> (c \<noteq> [] \<longrightarrow> (\<exists>x. score res = Fl x \<and> (unit_draws w \<longrightarrow> 0 \<le> x \<and> x \<le> 1)))"
proof -
  obtain scores w1 where l: "relevance_loop c [] w = (scores, w1)"
    by (cases "relevance_loop c [] w")
  obtain t w2 where t: "time_py w1 = (t, w2)" by (cases "time_py w1")
  from relevance_loop_draws [of c "[]" w] l
  have len: "length scores = length c"
    and b: "unit_draws w \<longrightarrow> (\<forall>x\<in>set scores. 0.6 \<le> x \<and> x \<le> 0.95)" by auto
  have e: "score (the_res) = np_mean (map Fl scores)"
    if "RetrievalAccuracyEvaluator_evaluate q r c g w = (Inr the_res, w2)" for the_res
    using that by (auto simp: RetrievalAccuracyEvaluator_evaluate_def l t Let_def)
  have ex: "\<exists>res. RetrievalAccuracyEvaluator_evaluate q r c g w = (Inr res, w2)"
    by (simp add: RetrievalAccuracyEvaluator_evaluate_def l t Let_def)
  then obtain res where res: "RetrievalAccuracyEvaluator_evaluate q r c g w = (Inr res, w2)" ..
  have sc: "score res = np_mean (map Fl scores)" by (rule e [OF res])
  have empty: "score res = NaN" if "c = []"
    using that len sc by (simp add: np_mean_Nil)
  have full: "\<exists>x. score res = Fl x \<and> (unit_draws w \<longrightarrow> 0 \<le> x \<and> x \<le> 1)" if "c \<noteq> []"
  proof -
    from that len have ne: "scores \<noteq> []" by auto
    have "unit_draws w \<longrightarrow> 0 \<le> average scores \<and> average scores \<le> 1"
    proof
      assume "unit_draws w"
      with b have "\<forall>x\<in>set scores. 0.6 \<le> x \<and> x \<le> 0.95" by simp
      from average_bounds [OF ne this] show "0 \<le> average scores \<and> average scores \<le> 1" by simp
    qed
    then show ?thesis using sc ne by (simp add: np_mean_Fl)
  qed
  from res empty full show ?thesis by blast
qed

lemma ContextRelevance_empty:
  "ContextRelevanceEvaluator_evaluate q r [] g w = (Inl (ValueError ''min() arg is an empty sequence''), w)"
  by (simp add: ContextRelevanceEvaluator_evaluate_def)

lemma ContextRelevance_result:
  assumes "c \<noteq> []"
  shows "\<exists>res w'. ContextRelevanceEvaluator_evaluate q r c g w = (Inr res, w')
      \<and> (\<exists>x. score res = Fl x \<and> (unit_draws w \<longrightarrow> 0 \<le> x \<and> x \<le> 1))"
proof -
  obtain scores w1 where l: "relevance_loop c [] w = (scores, w1)"
    by (cases "relevance_loop c [] w")
  obtain t w2 where t: "time_py w1 = (t, w2)" by (cases "time_py w1")
  from relevance_loop_draws [of c "[]" w] l
  have len: "length scores = length c"
    and b: "unit_draws w \<longrightarrow> (\<forall>x\<in>set scores. 0.6 \<le> x \<and> x \<le> 0.95)" by auto
  from assms len obtain v vs where sv: "scores = v # vs" by (cases scores) auto
  have "\<exists>res. ContextRelevanceEvaluator_evaluate q r c g w = (Inr res, w2)
          \<and> score res = np_mean (map Fl scores)"
    by (simp add: ContextRelevanceEvaluator_evaluate_def l t Let_def sv)
  then obtain res where res: "ContextRelevanceEvaluator_evaluate q r c g w = (Inr res, w2)"
    and sc: "score res = np_mean (map Fl scores)" by blast
  have ne: "scores \<noteq> []" using sv by simp
  have "unit_draws w \<longrightarrow> 0 \<le> average scores \<and> average scores \<le> 1"
  proof
    assume "unit_draws w"
    with b have "\<forall>x\<in>set scores. 0.6 \<le> x \<and> x \<le> 0.95" by simp
    from average_bounds [OF ne this] show "0 \<le> average scores \<and> average scores \<le> 1" by simp
  qed
  then have "\<exists>x. score res = Fl x \<and> (unit_draws w \<longrightarrow> 0 \<le> x \<and> x \<le> 1)"
    using sc ne by (simp add: np_mean_Fl)
  with res show ?thesis by blast
qed

lemma unit_drawsD: "unit_draws w \<Longrightarrow> 0 \<le> uniform_src w k \<and> uniform_src w k < 1"
  by (simp add: unit_draws_def)

lemma GenerationQuality_result:
  "\<exists>res w'. GenerationQualityEvaluator_evaluate q r c g w = (Inr res, w')
      \<and> (\<exists>x. score res = Fl x \<and> (unit_draws w \<longrightarrow> 0 \<le> x \<and> x \<le> 1))"
proof -
  have "unit_draws w \<longrightarrow>
      0 \<le> average [0.8 + (0.95 - 0.8) * uniform_src w 0,
                    0.75 + (0.92 - 0.75) * uniform_src w (Suc 0),
                    0.85 + (0.98 - 0.85) * uniform_src w (Suc (Suc 0)),
                    0.7 + (0.9 - 0.7) * uniform_src w (Suc (Suc (Suc 0)))]
      \<and> average [0.8 + (0.95 - 0.8) * uniform_src w 0,
                    0.75 + (0.92 - 0.75) * uniform_src w (Suc 0),
                    0.85 + (0.98 - 0.85) * uniform_src w (Suc (Suc 0)),
                    0.7 + (0.9 - 0.7) * uniform_src w (Suc (Suc (Suc 0)))] \<le> 1"
  proof
    assume d: "unit_draws w"
    show "0 \<le> average [0.8 + (0.95 - 0.8) * uniform_src w 0,
                    0.75 + (0.92 - 0.75) * uniform_src w (Suc 0),
                    0.85 + (0.98 - 0.85) * uniform_src w (Suc (Suc 0)),
                    0.7 + (0.9 - 0.7) * uniform_src w (Suc (Suc (Suc 0)))]
      \<and> average [0.8 + (0.95 - 0.8) * uniform_src w 0,
                    0.75 + (0.92 - 0.75) * uniform_src w (Suc 0),
                    0.85 + (0.98 - 0.85) * uniform_src w (Suc (Suc 0)),
                    0.7 + (0.9 - 0.7) * uniform_src w (Suc (Suc (Suc 0)))] \<le> 1"
      using unit_drawsD [OF d, of 0] unit_drawsD [OF d, of "Suc 0"]
        unit_drawsD [OF d, of "Suc (Suc 0)"] unit_drawsD [OF d, of "Suc (Suc (Suc 0))"]
      by (simp add: average_def)
  qed
  then show ?thesis
    by (simp add: GenerationQualityEvaluator_evaluate_def uniform_def time_py_def Let_def
          np_mean_def)
qed

lemma Faithfulness_result:
  "\<exists>res w'. FaithfulnessEvaluator_evaluate q r c g w = (Inr res, w')
      \<and> (\<exists>x. score res = Fl x \<and> (unit_draws w \<longrightarrow> 0 \<le> x \<and> x \<le> 1))"
proof -
  have "unit_draws w \<longrightarrow>
      0 \<le> average [1 - (0.05 + (0.15 - 0.05) * uniform_src w 0),
                    0.6 + (0.9 - 0.6) * uniform_src w (Suc 0),
                    0.85 + (0.98 - 0.85) * uniform_src w (Suc (Suc 0))]
      \<and> average [1 - (0.05 + (0.15 - 0.05) * uniform_src w 0),
                    0.6 + (0.9 - 0.6) * uniform_src w (Suc 0),
                    0.85 + (0.98 - 0.85) * uniform_src w (Suc (Suc 0))] \<le> 1"
  proof
    assume d: "unit_draws w"
    show "0 \<le> average [1 - (0.05 + (0.15 - 0.05) * uniform_src w 0),
                    0.6 + (0.9 - 0.6) * uniform_src w (Suc 0),
                    0.85 + (0.98 - 0.85) * uniform_src w (Suc (Suc 0))]
      \<and> average [1 - (0.05 + (0.15 - 0.05) * uniform_src w 0),
                    0.6 + (0.9 - 0.6) * uniform_src w (Suc 0),
                    0.85 + (0.98 - 0.85) * uniform_src w (Suc (Suc 0))] \<le> 1"
      using unit_drawsD [OF d, of "0"] unit_drawsD [OF d, of "Suc 0"] unit_drawsD [OF d, of "Suc (Suc 0)"]
      by (simp add: average_def)
  qed
  then show ?thesis
    by (simp add: FaithfulnessEvaluator_evaluate_def uniform_def time_py_def Let_def np_mean_def)
qed

lemma AnswerRelevance_result:
  "\<exists>res w'. AnswerRelevanceEvaluator_evaluate q r c g w = (Inr res, w')
      \<and> (\<exists>x. score res = Fl x \<and> (unit_draws w \<longrightarrow> 0 \<le> x \<and> x \<le> 1))"
proof -
  have "unit_draws w \<longrightarrow>
      0 \<le> average [0.8 + (0.95 - 0.8) * uniform_src w 0,
                    0.75 + (0.92 - 0.75) * uniform_src w (Suc 0),
                    0.7 + (0.9 - 0.7) * uniform_src w (Suc (Suc 0))]
      \<and> average [0.8 + (0.95 - 0.8) * uniform_src w 0,
                    0.75 + (0.92 - 0.75) * uniform_src w (Suc 0),
                    0.7 + (0.9 - 0.7) * uniform_src w (Suc (Suc 0))] \<le> 1"
  proof
    assume d: "unit_draws w"
    show "0 \<le> average [0.8 + (0.95 - 0.8) * uniform_src w 0,
                    0.75 + (0.92 - 0.75) * uniform_src w (Suc 0),
                    0.7 + (0.9 - 0.7) * uniform_src w (Suc (Suc 0))]
      \<and> average [0.8 + (0.95 - 0.8) * uniform_src w 0,
                    0.75 + (0.92 - 0.75) * uniform_src w (Suc 0),
                    0.7 + (0.9 - 0.7) * uniform_src w (Suc (Suc 0))] \<le> 1"
      using unit_drawsD [OF d, of "0"] unit_drawsD [OF d, of "Suc 0"] unit_drawsD [OF d, of "Suc (Suc 0)"]
      by (simp add: average_def)
  qed
  then show ?thesis
    by (simp add: AnswerRelevanceEvaluator_evaluate_def uniform_def time_py_def Let_def np_mean_def)
qed

lemma unit_draws_steady_world: "unit_draws steady_world"
  by (simp add: unit_draws_def steady_world_def)

lemma single_query_default:
  assumes "evaluators fw = evaluators RAGEvaluationFramework_init" "c \<noteq> []"
  shows "\<exists>r1 r2 r3 r4 r5 x1 x2 x3 x4 x5 w'.
           evaluate_single_query fw q r c g w = (Inr (metric_table r1 r2 r3 r4 r5), w')
           \<and> score r1 = Fl x1 \<and> score r2 = Fl x2 \<and> score r3 = Fl x3
           \<and> score r4 = Fl x4 \<and> score r5 = Fl x5"
proof -
  from RetrievalAccuracy_result [of q r c g w] assms(2) obtain r1 w1 x1
    where e1: "RetrievalAccuracyEvaluator_evaluate q r c g w = (Inr r1, w1)"
      and s1: "score r1 = Fl x1" by blast
  from GenerationQuality_result [of q r c g w1] obtain r2 w2 x2
    where e2: "GenerationQualityEvaluator_evaluate q r c g w1 = (Inr r2, w2)"
      and s2: "score r2 = Fl x2" by blast
  from Faithfulness_result [of q r c g w2] obtain r3 w3 x3
    where e3: "FaithfulnessEvaluator_evaluate q r c g w2 = (Inr r3, w3)"
      and s3: "score r3 = Fl x3" by blast
  from ContextRelevance_result [OF assms(2), of q r g w3] obtain r4 w4 x4
    where e4: "ContextRelevanceEvaluator_evaluate q r c g w3 = (Inr r4, w4)"
      and s4: "score r4 = Fl x4" by blast
  from AnswerRelevance_result [of q r c g w4] obtain r5 w5 x5
    where e5: "AnswerRelevanceEvaluator_evaluate q r c g w4 = (Inr r5, w5)"
      and s5: "score r5 = Fl x5" by blast
  have "evaluate_single_query fw q r c g w = (Inr (metric_table r1 r2 r3 r4 r5), w5)"
    by (simp add: evaluate_single_query_def assms(1) RAGEvaluationFramework_init_def
          e1 e2 e3 e4 e5 dict_set_def metric_table_def)
  with s1 s2 s3 s4 s5 show ?thesis by blast
qed

lemma single_query_default_empty:
  assumes "evaluators fw = evaluators RAGEvaluationFramework_init"
  shows "\<exists>w'. evaluate_single_query fw q r [] g w
           = (Inl (ValueError ''min() arg is an empty sequence''), w')"
proof -
  from RetrievalAccuracy_result [of q r "[]" g w] obtain r1 w1
    where e1: "RetrievalAccuracyEvaluator_evaluate q r [] g w = (Inr r1, w1)" by blast
  from GenerationQuality_result [of q r "[]" g w1] obtain r2 w2
    where e2: "GenerationQualityEvaluator_evaluate q r [] g w1 = (Inr r2, w2)" by blast
  from Faithfulness_result [of q r "[]" g w2] obtain r3 w3
    where e3: "FaithfulnessEvaluator_evaluate q r [] g w2 = (Inr r3, w3)" by blast
  show ?thesis
    by (simp add: evaluate_single_query_def assms(1) RAGEvaluationFramework_init_def
          e1 e2 e3 ContextRelevance_empty)
qed

lemma collect_scores_table:
  "collect_scores (metric_table r1 r2 r3 r4 r5) (metric_table s1 s2 s3 s4 s5)
     = Inr (metric_table (s1 @ [score r1]) (s2 @ [score r2]) (s3 @ [score r3])
              (s4 @ [score r4]) (s5 @ [score r5]))"
  by (simp add: metric_table_def dict_append_def)

lemma np_min_Fl: "np_min (map Fl (v # vs)) = Inr (Fl (fold min vs v))"
  by (simp add: np_min_def float_values_map_Fl [of "v # vs", simplified])

lemma np_max_Fl: "np_max (map Fl (v # vs)) = Inr (Fl (fold max vs v))"
  by (simp add: np_max_def float_values_map_Fl [of "v # vs", simplified])

lemma aggregate_loop_table:
  assumes "v1 \<noteq> []" "v2 \<noteq> []" "v3 \<noteq> []" "v4 \<noteq> []" "v5 \<noteq> []"
  shows "aggregate_loop (metric_table (map Fl v1) (map Fl v2) (map Fl v3) (map Fl v4) (map Fl v5)) []
     = Inr (metric_table (statistics v1) (statistics v2) (statistics v3) (statistics v4)
              (statistics v5))"
proof -
  have m: "np_min (map Fl v) = Inr (Fl (fold min (tl v) (hd v)))"
    "np_max (map Fl v) = Inr (Fl (fold max (tl v) (hd v)))" if "v \<noteq> []" for v
    using that np_min_Fl [of "hd v" "tl v"] np_max_Fl [of "hd v" "tl v"] by simp_all
  show ?thesis
    by (simp add: metric_table_def m assms dict_set_def statistics_def)
qed

lemma test_case_loop_default:
  assumes "evaluators fw = evaluators RAGEvaluationFramework_init"
  shows "if \<forall>tc\<in>set tcs. context_case tc \<noteq> []
         then \<exists>all' u1 u2 u3 u4 u5 w'.
                test_case_loop fw tcs i all
                    (metric_table (map Fl v1) (map Fl v2) (map Fl v3) (map Fl v4) (map Fl v5)) w
                  = (Inr (all', metric_table (map Fl (v1 @ u1)) (map Fl (v2 @ u2))
                            (map Fl (v3 @ u3)) (map Fl (v4 @ u4)) (map Fl (v5 @ u5))), w')
                \<and> length u1 = length tcs \<and> length u2 = length tcs \<and> length u3 = length tcs
                \<and> length u4 = length tcs \<and> length u5 = length tcs
         else \<exists>e w'. test_case_loop fw tcs i all
                    (metric_table (map Fl v1) (map Fl v2) (map Fl v3) (map Fl v4) (map Fl v5)) w
                  = (Inl e, w')"
proof (induction tcs arbitrary: i all v1 v2 v3 v4 v5 w)
  case Nil
  show ?case by simp
next
  case (Cons tc tcs)
  show ?case
  proof (cases "context_case tc = []")
    case True
    from single_query_default_empty [OF assms, of "query tc" "response tc" "ground_truth tc" w]
    show ?thesis using True by auto
  next
    case False
    from single_query_default [OF assms False, of "query tc" "response tc" "ground_truth tc" w]
    obtain r1 r2 r3 r4 r5 x1 x2 x3 x4 x5 w1
      where q: "evaluate_single_query fw (query tc) (response tc) (context_case tc)
                  (ground_truth tc) w = (Inr (metric_table r1 r2 r3 r4 r5), w1)"
        and sc: "score r1 = Fl x1" "score r2 = Fl x2" "score r3 = Fl x3"
          "score r4 = Fl x4" "score r5 = Fl x5"
      by blast
    let ?all = "all @ [\<lparr>test_case_id = i, query_result = query tc,
                        results = metric_table r1 r2 r3 r4 r5\<rparr>]"
    have step: "test_case_loop fw (tc # tcs) i all
                    (metric_table (map Fl v1) (map Fl v2) (map Fl v3) (map Fl v4) (map Fl v5)) w
         = test_case_loop fw tcs (Suc i) ?all
             (metric_table (map Fl (v1 @ [x1])) (map Fl (v2 @ [x2])) (map Fl (v3 @ [x3]))
                (map Fl (v4 @ [x4])) (map Fl (v5 @ [x5]))) w1"
      by (simp add: q collect_scores_table sc)
    note IH = Cons.IH [of "Suc i" ?all "v1 @ [x1]" "v2 @ [x2]" "v3 @ [x3]" "v4 @ [x4]" "v5 @ [x5]" w1]
    show ?thesis
    proof (cases "\<forall>t\<in>set tcs. context_case t \<noteq> []")
      case True
      with IH obtain all' u1 u2 u3 u4 u5 w'
        where r: "test_case_loop fw tcs (Suc i) ?all
             (metric_table (map Fl (v1 @ [x1])) (map Fl (v2 @ [x2])) (map Fl (v3 @ [x3]))
                (map Fl (v4 @ [x4])) (map Fl (v5 @ [x5]))) w1
           = (Inr (all', metric_table (map Fl ((v1 @ [x1]) @ u1)) (map Fl ((v2 @ [x2]) @ u2))
                            (map Fl ((v3 @ [x3]) @ u3)) (map Fl ((v4 @ [x4]) @ u4))
                            (map Fl ((v5 @ [x5]) @ u5))), w')"
          and l: "length u1 = length tcs" "length u2 = length tcs" "length u3 = length tcs"
            "length u4 = length tcs" "length u5 = length tcs"
        by auto
      have "test_case_loop fw (tc # tcs) i all
                    (metric_table (map Fl v1) (map Fl v2) (map Fl v3) (map Fl v4) (map Fl v5)) w
          = (Inr (all', metric_table (map Fl (v1 @ (x1 # u1))) (map Fl (v2 @ (x2 # u2)))
                            (map Fl (v3 @ (x3 # u3))) (map Fl (v4 @ (x4 # u4)))
                            (map Fl (v5 @ (x5 # u5)))), w')"
        unfolding step r by simp
      moreover have "length (x1 # u1) = length (tc # tcs)" "length (x2 # u2) = length (tc # tcs)"
        "length (x3 # u3) = length (tc # tcs)" "length (x4 # u4) = length (tc # tcs)"
        "length (x5 # u5) = length (tc # tcs)" using l by simp_all
      ultimately have E: "\<exists>all' u1 u2 u3 u4 u5 w'.
                test_case_loop fw (tc # tcs) i all
                    (metric_table (map Fl v1) (map Fl v2) (map Fl v3) (map Fl v4) (map Fl v5)) w
                  = (Inr (all', metric_table (map Fl (v1 @ u1)) (map Fl (v2 @ u2))
                            (map Fl (v3 @ u3)) (map Fl (v4 @ u4)) (map Fl (v5 @ u5))), w')
                \<and> length u1 = length (tc # tcs) \<and> length u2 = length (tc # tcs)
                \<and> length u3 = length (tc # tcs)
                \<and> length u4 = length (tc # tcs) \<and> length u5 = length (tc # tcs)"
        by blast
      have P: "\<forall>t\<in>set (tc # tcs). context_case t \<noteq> []" using True False by simp
      show ?thesis unfolding if_P [OF P] by (rule E)
    next
      case F: False
      with IH obtain e w' where "test_case_loop fw tcs (Suc i) ?all
             (metric_table (map Fl (v1 @ [x1])) (map Fl (v2 @ [x2])) (map Fl (v3 @ [x3]))
                (map Fl (v4 @ [x4])) (map Fl (v5 @ [x5]))) w1 = (Inl e, w')"
        by auto
      with step have E: "\<exists>e w'. test_case_loop fw (tc # tcs) i all
                    (metric_table (map Fl v1) (map Fl v2) (map Fl v3) (map Fl v4) (map Fl v5)) w
                  = (Inl e, w')" by simp
      have P: "\<not> (\<forall>t\<in>set (tc # tcs). context_case t \<noteq> [])" using F by simp
      show ?thesis unfolding if_not_P [OF P] by (rule E)
    qed
  qed
qed

lemma initial_metric_scores:
  "evaluators fw = evaluators RAGEvaluationFramework_init \<Longrightarrow>
     map (\<lambda>(name, ev). (name, [])) (evaluators fw)
       = metric_table (map Fl []) (map Fl []) (map Fl []) (map Fl []) (map Fl [])"
  by (simp add: RAGEvaluationFramework_init_def metric_table_def)

lemma mean_stat_statistics: "vs \<noteq> [] \<Longrightarrow> mean_stat (statistics vs) = Fl (average vs)"
  by (simp add: statistics_def np_mean_Fl)

lemma evaluate_test_set_default:
  assumes "evaluators fw = evaluators RAGEvaluationFramework_init" "tcs \<noteq> []"
  shows "if \<forall>tc\<in>set tcs. context_case tc \<noteq> []
         then \<exists>summary fw' w' u1 u2 u3 u4 u5.
                evaluate_test_set fw tcs w = (Inr summary, fw', w')
                \<and> metric_aggregates summary
                    = metric_table (statistics u1) (statistics u2) (statistics u3)
                        (statistics u4) (statistics u5)
                \<and> length u1 = length tcs \<and> length u2 = length tcs \<and> length u3 = length tcs
                \<and> length u4 = length tcs \<and> length u5 = length tcs
                \<and> overall_score summary
                    = Fl ((average u1 + average u2 + average u3 + average u4 + average u5) / 5)
                \<and> test_set_size summary = length tcs
                \<and> evaluation_history fw' = evaluation_history fw @ [summary]
         else \<exists>e w'. evaluate_test_set fw tcs w = (Inl e, fw, w')"
proof (cases "\<forall>tc\<in>set tcs. context_case tc \<noteq> []")
  case True
  from test_case_loop_default [OF assms(1), of tcs 0 "[]" "[]" "[]" "[]" "[]" "[]" w] True
  obtain all' u1 u2 u3 u4 u5 w1
    where l: "test_case_loop fw tcs 0 []
                (metric_table (map Fl []) (map Fl []) (map Fl []) (map Fl []) (map Fl [])) w
              = (Inr (all', metric_table (map Fl u1) (map Fl u2) (map Fl u3) (map Fl u4)
                        (map Fl u5)), w1)"
      and len: "length u1 = length tcs" "length u2 = length tcs" "length u3 = length tcs"
        "length u4 = length tcs" "length u5 = length tcs"
    by auto
  from len assms(2) have ne: "u1 \<noteq> []" "u2 \<noteq> []" "u3 \<noteq> []" "u4 \<noteq> []" "u5 \<noteq> []" by auto
  note agg = aggregate_loop_table [OF ne]
  have means: "map (\<lambda>(name, a). mean_stat a)
                 (metric_table (statistics u1) (statistics u2) (statistics u3) (statistics u4)
                    (statistics u5))
               = map Fl [average u1, average u2, average u3, average u4, average u5]"
    by (simp add: metric_table_def mean_stat_statistics ne)
  have overall: "np_mean (map (\<lambda>(name, a). mean_stat a)
                 (metric_table (statistics u1) (statistics u2) (statistics u3) (statistics u4)
                    (statistics u5)))
               = Fl ((average u1 + average u2 + average u3 + average u4 + average u5) / 5)"
    unfolding means by (simp add: np_mean_def average_def [of "[_, _, _, _, _]"])
  have E: "\<exists>summary fw' w' u1 u2 u3 u4 u5.
                evaluate_test_set fw tcs w = (Inr summary, fw', w')
                \<and> metric_aggregates summary
                    = metric_table (statistics u1) (statistics u2) (statistics u3)
                        (statistics u4) (statistics u5)
                \<and> length u1 = length tcs \<and> length u2 = length tcs \<and> length u3 = length tcs
                \<and> length u4 = length tcs \<and> length u5 = length tcs
                \<and> overall_score summary
                    = Fl ((average u1 + average u2 + average u3 + average u4 + average u5) / 5)
                \<and> test_set_size summary = length tcs
                \<and> evaluation_history fw' = evaluation_history fw @ [summary]"
    apply (simp only: evaluate_test_set_def initial_metric_scores [OF assms(1)] l agg overall
             Let_def prod.case sum.case)
    apply (cases "time_py w1")
    apply (simp only: prod.case)
    apply (intro exI conjI)
             apply (rule refl)
            apply (simp_all add: len)
    done
  show ?thesis unfolding if_P [OF True] by (rule E)
next
  case False
  from test_case_loop_default [OF assms(1), of tcs 0 "[]" "[]" "[]" "[]" "[]" "[]" w] False
  obtain e w1
    where l: "test_case_loop fw tcs 0 []
                (metric_table (map Fl []) (map Fl []) (map Fl []) (map Fl []) (map Fl [])) w
              = (Inl e, w1)"
    by auto
  have E: "\<exists>e w'. evaluate_test_set fw tcs w = (Inl e, fw, w')"
    by (simp only: evaluate_test_set_def initial_metric_scores [OF assms(1)] l prod.case sum.case)
       blast
  show ?thesis unfolding if_not_P [OF False] by (rule E)
qed

lemma metric_table_keys: "map fst (metric_table a b c d e) = metric_names"
  by (simp add: metric_table_def metric_names_def RAGEvaluationFramework_init_def)

lemma benchmark_contexts: "\<forall>tc\<in>set benchmark_test_cases. context_case tc \<noteq> []"
  by (simp add: benchmark_test_cases_def)

subsection \<open>The range of the scores\<close>

text \<open>
  Claim C9, as the code has it.  When the random source returns numbers in
  \<open>[0, 1)\<close>, every evaluator returns a result whose score is a number in \<open>[0, 1]\<close>
  for every query, response and ground truth and every non-empty context list; the
  three evaluators that do not draw one score for each context
  (\<^verbatim>\<open>GenerationQualityEvaluator\<close>, \<^verbatim>\<open>FaithfulnessEvaluator\<close>,
  \<^verbatim>\<open>AnswerRelevanceEvaluator\<close>) do so for the empty context list as well.
\<close>

theorem evaluator_score_range:
  assumes "unit_draws w"
    and "c \<noteq> [] \<or> ev \<in> {GenerationQualityEvaluator, FaithfulnessEvaluator, AnswerRelevanceEvaluator}"
  shows "\<exists>res w' x. evaluate ev q r c g w = (Inr res, w') \<and> score res = Fl x \<and> 0 \<le> x \<and> x \<le> 1"
proof (cases ev)
  case RetrievalAccuracyEvaluator
  with assms(2) have "c \<noteq> []" by simp
  with RetrievalAccuracy_result [of q r c g w] assms(1) RetrievalAccuracyEvaluator
  show ?thesis by auto
next
  case GenerationQualityEvaluator
  with GenerationQuality_result [of q r c g w] assms(1) show ?thesis by auto
next
  case FaithfulnessEvaluator
  with Faithfulness_result [of q r c g w] assms(1) show ?thesis by auto
next
  case ContextRelevanceEvaluator
  with assms(2) have "c \<noteq> []" by simp
  from ContextRelevance_result [OF this, of q r g w] assms(1) ContextRelevanceEvaluator
  show ?thesis by auto
next
  case AnswerRelevanceEvaluator
  with AnswerRelevance_result [of q r c g w] assms(1) show ?thesis by auto
qed

theorem evaluator_score_range_witness:
  "unit_draws steady_world
   \<and> context_case (benchmark_test_cases ! 0) \<noteq> []
   \<and> (\<exists>res w' x. evaluate ContextRelevanceEvaluator (query (benchmark_test_cases ! 0))
          (response (benchmark_test_cases ! 0)) (context_case (benchmark_test_cases ! 0))
          (ground_truth (benchmark_test_cases ! 0)) steady_world = (Inr res, w')
        \<and> score res = Fl x \<and> 0 \<le> x \<and> x \<le> 1)"
proof -
  have c: "context_case (benchmark_test_cases ! 0) \<noteq> []"
    by (simp add: benchmark_test_cases_def)
  then have "context_case (benchmark_test_cases ! 0) \<noteq> []
      \<or> ContextRelevanceEvaluator \<in> {GenerationQualityEvaluator, FaithfulnessEvaluator, AnswerRelevanceEvaluator}"
    by simp
  from evaluator_score_range [OF unit_draws_steady_world this] c unit_draws_steady_world
  show ?thesis by blast
qed

text \<open>
  With the empty context list, \<^verbatim>\<open>ContextRelevanceEvaluator\<close> raises instead of
  returning a result, since the builtin \<^verbatim>\<open>min\<close> refuses the empty list of scores,
  and the score that \<^verbatim>\<open>RetrievalAccuracyEvaluator\<close> returns is not a number.
\<close>

theorem empty_context_counterexample:
  "fst (evaluate ContextRelevanceEvaluator ''What is RAG and how does it work?'' ''RAG is a technique.''
          [] None steady_world)
     = Inl (ValueError ''min() arg is an empty sequence'')
   \<and> map_sum id score
        (fst (evaluate RetrievalAccuracyEvaluator ''What is RAG and how does it work?''
                ''RAG is a technique.'' [] None steady_world))
     = Inr NaN"
  by (simp add: ContextRelevance_empty RetrievalAccuracyEvaluator_evaluate_def time_py_def
        np_mean_Nil)

subsection \<open>The overall score\<close>

text \<open>
  Claim C3.  Whenever the framework with its five evaluators returns a summary for a
  non-empty test set, the summary has one aggregate for each of the five metrics,
  every per-metric mean is a number, and \<open>overall_score\<close> is the sum of the five
  means divided by five, which is \<^verbatim>\<open>np.mean\<close> of the list of the means: every
  metric has the same weight.
\<close>

theorem overall_score_mean_of_means:
  assumes "evaluators fw = evaluators RAGEvaluationFramework_init" "test_cases \<noteq> []"
    and "evaluate_test_set fw test_cases w = (Inr summary, fw', w')"
  shows "\<exists>m1 m2 m3 m4 m5.
           metric_means summary = [Fl m1, Fl m2, Fl m3, Fl m4, Fl m5]
           \<and> map fst (metric_aggregates summary) = metric_names
           \<and> overall_score summary = Fl ((m1 + m2 + m3 + m4 + m5) / 5)
           \<and> overall_score summary = np_mean (metric_means summary)"
proof -
  note d = evaluate_test_set_default [OF assms(1,2), of w]
  have all: "\<forall>tc\<in>set test_cases. context_case tc \<noteq> []"
  proof (rule ccontr)
    assume n: "\<not> (\<forall>tc\<in>set test_cases. context_case tc \<noteq> [])"
    from d [unfolded if_not_P [OF n]] assms(3) show False by auto
  qed
  from d [unfolded if_P [OF all]] assms(3) obtain u1 u2 u3 u4 u5
    where agg: "metric_aggregates summary
                    = metric_table (statistics u1) (statistics u2) (statistics u3)
                        (statistics u4) (statistics u5)"
      and len: "length u1 = length test_cases" "length u2 = length test_cases"
        "length u3 = length test_cases" "length u4 = length test_cases"
        "length u5 = length test_cases"
      and ov: "overall_score summary
                 = Fl ((average u1 + average u2 + average u3 + average u4 + average u5) / 5)"
    by auto
  from len assms(2) have ne: "u1 \<noteq> []" "u2 \<noteq> []" "u3 \<noteq> []" "u4 \<noteq> []" "u5 \<noteq> []" by auto
  have means: "metric_means summary
                 = [Fl (average u1), Fl (average u2), Fl (average u3), Fl (average u4),
                    Fl (average u5)]"
    by (simp add: metric_means_def agg metric_table_def mean_stat_statistics ne)
  have keys: "map fst (metric_aggregates summary) = metric_names"
    by (simp only: agg metric_table_keys)
  have np: "overall_score summary = np_mean (metric_means summary)"
    unfolding means ov by (simp add: np_mean_def average_def [of "[_, _, _, _, _]"])
  from means keys ov np show ?thesis by blast
qed

theorem overall_score_mean_of_means_witness:
  "evaluators RAGEvaluationFramework_init = evaluators RAGEvaluationFramework_init
   \<and> benchmark_test_cases \<noteq> []
   \<and> (\<exists>summary fw' w' m1 m2 m3 m4 m5.
         run_benchmark_evaluation RAGEvaluationFramework_init steady_world = (Inr summary, fw', w')
         \<and> metric_means summary = [Fl m1, Fl m2, Fl m3, Fl m4, Fl m5]
         \<and> overall_score summary = Fl ((m1 + m2 + m3 + m4 + m5) / 5))"
proof -
  have ne: "benchmark_test_cases \<noteq> []" by (simp add: benchmark_test_cases_def)
  from evaluate_test_set_default [OF refl ne, of steady_world,
      unfolded if_P [OF benchmark_contexts]]
  obtain summary fw' w'
    where r: "evaluate_test_set RAGEvaluationFramework_init benchmark_test_cases steady_world
                = (Inr summary, fw', w')"
    by blast
  from overall_score_mean_of_means [OF refl ne r] obtain m1 m2 m3 m4 m5
    where "metric_means summary = [Fl m1, Fl m2, Fl m3, Fl m4, Fl m5]"
      and "overall_score summary = Fl ((m1 + m2 + m3 + m4 + m5) / 5)"
    by blast
  with r ne show ?thesis unfolding run_benchmark_evaluation_def by blast
qed

subsection \<open>The empty test set\<close>

text \<open>
  Claim C8, as the code has it.  On zero test cases \<^verbatim>\<open>evaluate_test_set\<close> raises:
  the score list of the first registered metric is empty, and \<^verbatim>\<open>np.min\<close> refuses
  it with \<^verbatim>\<open>ValueError\<close>.  No summary is returned, the history is not extended and
  the clock is not read.
\<close>

theorem empty_test_set_raises:
  assumes "evaluators fw \<noteq> []"
  shows "evaluate_test_set fw [] w
           = (Inl (ValueError ''zero-size array to reduction operation minimum which has no identity''),
              fw, w)"
proof -
  from assms obtain name ev rest where e: "evaluators fw = (name, ev) # rest"
    by (cases "evaluators fw") auto
  show ?thesis
    by (simp add: evaluate_test_set_def e np_min_def)
qed

theorem empty_test_set_raises_witness:
  "evaluators RAGEvaluationFramework_init \<noteq> []
   \<and> evaluate_test_set RAGEvaluationFramework_init [] steady_world
       = (Inl (ValueError ''zero-size array to reduction operation minimum which has no identity''),
          RAGEvaluationFramework_init, steady_world)"
proof -
  have e: "evaluators RAGEvaluationFramework_init \<noteq> []"
    by (simp add: RAGEvaluationFramework_init_def)
  from empty_test_set_raises [OF e, of steady_world] e show ?thesis by simp
qed

text \<open>The framework as \<^verbatim>\<open>__init__\<close> leaves it, run on the empty list of test cases.\<close>

theorem empty_test_set_counterexample:
  "fst (evaluate_test_set RAGEvaluationFramework_init [] steady_world)
     = Inl (ValueError ''zero-size array to reduction operation minimum which has no identity'')"
  by (simp add: evaluate_test_set_def RAGEvaluationFramework_init_def np_min_def)

end
